theory Spec2Isabelle
  imports Complex_Main "HOL-Library.Monad_Syntax"
begin

section \<open>Materials (material.py)\<close>

text \<open>
  \<^verbatim>\<open>class MaterialType(IntEnum)\<close>: the identifiers stored in the cells of the grid,
  with their integer values.
\<close>

datatype MaterialType = EMPTY | WALL | SAND | WATER | OIL | FIRE

fun type_value :: "MaterialType \<Rightarrow> int" where
  "type_value EMPTY = 0"
| "type_value WALL = 1"
| "type_value SAND = 2"
| "type_value WATER = 3"
| "type_value OIL = 4"
| "type_value FIRE = 5"

text \<open>
  The six subclasses of \<^verbatim>\<open>Material\<close>. Each class has exactly one instance (held by
  the registry), so an instance is identified with its class.
\<close>

datatype Material =
  EmptyMaterial | WallMaterial | SandMaterial | WaterMaterial | OilMaterial | FireMaterial

text \<open>Property \<^verbatim>\<open>id\<close> of each class.\<close>

fun material_id :: "Material \<Rightarrow> MaterialType" where
  "material_id EmptyMaterial = EMPTY"
| "material_id WallMaterial = WALL"
| "material_id SandMaterial = SAND"
| "material_id WaterMaterial = WATER"
| "material_id OilMaterial = OIL"
| "material_id FireMaterial = FIRE"

text \<open>Property \<^verbatim>\<open>density\<close> of each class.\<close>

fun density :: "Material \<Rightarrow> int" where
  "density EmptyMaterial = 0"
| "density WallMaterial = 1000"
| "density SandMaterial = 150"
| "density WaterMaterial = 100"
| "density OilMaterial = 50"
| "density FireMaterial = - 10"

text \<open>
  \<^verbatim>\<open>hasattr(m, "flammable") and m.flammable\<close>: only \<^verbatim>\<open>OilMaterial\<close> defines the
  property, and it returns \<^verbatim>\<open>True\<close>.
\<close>

fun flammable :: "Material \<Rightarrow> bool" where
  "flammable OilMaterial = True"
| "flammable _ = False"

text \<open>
  \<^verbatim>\<open>MaterialRegistry\<close>: \<^verbatim>\<open>_initialize_materials\<close> registers the six instances in
  this order, \<^verbatim>\<open>register\<close> stores each under its identifier, and \<^verbatim>\<open>get\<close> is the
  dictionary's \<^verbatim>\<open>get\<close> (none for an unknown identifier). Later registrations
  overwrite earlier ones, so the list is searched from its end.
\<close>

definition registered :: "Material list" where
  "registered =
     [EmptyMaterial, WallMaterial, SandMaterial, WaterMaterial, OilMaterial, FireMaterial]"

definition registry_get :: "int \<Rightarrow> Material option" where
  "registry_get i = map_of (rev (map (\<lambda>m. (type_value (material_id m), m)) registered)) i"

section \<open>Python lists\<close>

text \<open>
  Indexing a Python list of length \<open>n\<close> with the integer \<open>i\<close>: the indices \<open>0 .. n - 1\<close>
  name the positions in order, the indices \<open>-n .. -1\<close> name the same positions counted
  from the end, and any other index raises \<^verbatim>\<open>IndexError\<close>. Apart from a missing
  dictionary key that is the only exception the simulation code could raise, so a
  computation that may raise returns an \<open>option\<close>, with \<open>None\<close> for the exception.
\<close>

definition py_position :: "nat \<Rightarrow> int \<Rightarrow> nat option" where
  "py_position n i =
     (if 0 \<le> i \<and> i < int n then Some (nat i)
      else if - int n \<le> i \<and> i < 0 then Some (nat (int n + i))
      else None)"

text \<open>\<^verbatim>\<open>xs[i]\<close> and \<^verbatim>\<open>xs[i] = v\<close>.\<close>

definition py_index :: "'a list \<Rightarrow> int \<Rightarrow> 'a option" where
  "py_index xs i = map_option (\<lambda>j. xs ! j) (py_position (length xs) i)"

definition py_store :: "'a list \<Rightarrow> int \<Rightarrow> 'a \<Rightarrow> 'a list option" where
  "py_store xs i v = map_option (\<lambda>j. xs[j := v]) (py_position (length xs) i)"

text \<open>\<^verbatim>\<open>g[y][x]\<close> and \<^verbatim>\<open>g[y][x] = v\<close> on a list of rows.\<close>

definition grid_get :: "'a list list \<Rightarrow> int \<Rightarrow> int \<Rightarrow> 'a option" where
  "grid_get g y x = do { row \<leftarrow> py_index g y; py_index row x }"

definition grid_set :: "'a list list \<Rightarrow> int \<Rightarrow> int \<Rightarrow> 'a \<Rightarrow> 'a list list option" where
  "grid_set g y x v = do { row \<leftarrow> py_index g y; row' \<leftarrow> py_store row x v; py_store g y row' }"

section \<open>The world (world.py)\<close>

record World =
  width :: int
  height :: int
  cur :: "MaterialType list list"
  nxt :: "MaterialType list list"
  moved :: "bool list list"
  frame_count :: int

text \<open>\<^verbatim>\<open>range(n)\<close> for an integer \<open>n\<close> (empty when \<open>n \<le> 0\<close>).\<close>

definition py_range :: "int \<Rightarrow> int list" where
  "py_range n = map int [0..<nat n]"

definition create_empty_grid :: "int \<Rightarrow> int \<Rightarrow> MaterialType list list" where
  "create_empty_grid w h = map (\<lambda>_. map (\<lambda>_. EMPTY) (py_range w)) (py_range h)"

definition create_flag_grid :: "int \<Rightarrow> int \<Rightarrow> bool list list" where
  "create_flag_grid w h = map (\<lambda>_. map (\<lambda>_. False) (py_range w)) (py_range h)"

text \<open>\<^verbatim>\<open>World.__init__\<close>.\<close>

definition World_init :: "int \<Rightarrow> int \<Rightarrow> World" where
  "World_init w h =
     \<lparr> width = w, height = h,
       cur = create_empty_grid w h, nxt = create_empty_grid w h,
       moved = create_flag_grid w h, frame_count = 0 \<rparr>"

definition is_valid_position :: "World \<Rightarrow> int \<Rightarrow> int \<Rightarrow> bool" where
  "is_valid_position w x y \<longleftrightarrow> 0 \<le> x \<and> x < width w \<and> 0 \<le> y \<and> y < height w"

definition clear :: "World \<Rightarrow> World" where
  "clear w =
     w\<lparr> cur := create_empty_grid (width w) (height w),
        nxt := create_empty_grid (width w) (height w),
        moved := create_flag_grid (width w) (height w) \<rparr>"

text \<open>
  \<^verbatim>\<open>get_pixel\<close> returns the identifier as an integer, or \<open>-1\<close> outside the grid.
\<close>

definition get_pixel :: "World \<Rightarrow> int \<Rightarrow> int \<Rightarrow> int option" where
  "get_pixel w x y =
     (if is_valid_position w x y
      then do { c \<leftarrow> grid_get (cur w) y x; Some (type_value c) }
      else Some (- 1))"

definition get_material_at :: "World \<Rightarrow> int \<Rightarrow> int \<Rightarrow> Material option option" where
  "get_material_at w x y = do {
     pixel_id \<leftarrow> get_pixel w x y;
     if pixel_id < 0 then Some None else Some (registry_get pixel_id)
   }"

definition set_pixel :: "int \<Rightarrow> int \<Rightarrow> MaterialType \<Rightarrow> World \<Rightarrow> (bool \<times> World) option" where
  "set_pixel x y pixel_type w =
     (if is_valid_position w x y
      then do { g \<leftarrow> grid_set (cur w) y x pixel_type; Some (True, w\<lparr>cur := g\<rparr>) }
      else Some (False, w))"

definition is_updated :: "World \<Rightarrow> int \<Rightarrow> int \<Rightarrow> bool option" where
  "is_updated w x y =
     (if \<not> is_valid_position w x y then Some True else grid_get (moved w) y x)"

definition mark_updated :: "int \<Rightarrow> int \<Rightarrow> World \<Rightarrow> World option" where
  "mark_updated x y w =
     (if is_valid_position w x y
      then do { m \<leftarrow> grid_set (moved w) y x True; Some (w\<lparr>moved := m\<rparr>) }
      else Some w)"

text \<open>
  The condition \<^verbatim>\<open>self._moved[y1][x1] or self._moved[y2][x2]\<close> reads the second flag
  only when the first is false.
\<close>

definition either_moved :: "World \<Rightarrow> int \<Rightarrow> int \<Rightarrow> int \<Rightarrow> int \<Rightarrow> bool option" where
  "either_moved w x1 y1 x2 y2 = do {
     m1 \<leftarrow> grid_get (moved w) y1 x1;
     if m1 then Some True else grid_get (moved w) y2 x2
   }"

definition swap_pixels :: "int \<Rightarrow> int \<Rightarrow> int \<Rightarrow> int \<Rightarrow> World \<Rightarrow> (bool \<times> World) option" where
  "swap_pixels x1 y1 x2 y2 w =
     (if \<not> (is_valid_position w x1 y1 \<and> is_valid_position w x2 y2) then Some (False, w)
      else do {
        blocked \<leftarrow> either_moved w x1 y1 x2 y2;
        if blocked then Some (False, w)
        else do {
          a \<leftarrow> grid_get (cur w) y1 x1;
          b \<leftarrow> grid_get (cur w) y2 x2;
          n1 \<leftarrow> grid_set (nxt w) y1 x1 b;
          n2 \<leftarrow> grid_set n1 y2 x2 a;
          m1 \<leftarrow> grid_set (moved w) y1 x1 True;
          m2 \<leftarrow> grid_set m1 y2 x2 True;
          Some (True, w\<lparr>nxt := n2, moved := m2\<rparr>)
        }
      })"

definition try_move :: "int \<Rightarrow> int \<Rightarrow> int \<Rightarrow> int \<Rightarrow> World \<Rightarrow> (bool \<times> World) option" where
  "try_move x1 y1 x2 y2 w =
     (if \<not> (is_valid_position w x1 y1 \<and> is_valid_position w x2 y2) then Some (False, w)
      else do {
        blocked \<leftarrow> either_moved w x1 y1 x2 y2;
        if blocked then Some (False, w)
        else do {
          a \<leftarrow> grid_get (cur w) y1 x1;
          n1 \<leftarrow> grid_set (nxt w) y2 x2 a;
          n2 \<leftarrow> grid_set n1 y1 x1 EMPTY;
          m1 \<leftarrow> grid_set (moved w) y1 x1 True;
          m2 \<leftarrow> grid_set m1 y2 x2 True;
          Some (True, w\<lparr>nxt := n2, moved := m2\<rparr>)
        }
      })"

definition try_set :: "int \<Rightarrow> int \<Rightarrow> MaterialType \<Rightarrow> World \<Rightarrow> (bool \<times> World) option" where
  "try_set x y pixel_type w =
     (if \<not> is_valid_position w x y then Some (False, w)
      else do {
        m \<leftarrow> grid_get (moved w) y x;
        if m then Some (False, w)
        else do {
          n1 \<leftarrow> grid_set (nxt w) y x pixel_type;
          m1 \<leftarrow> grid_set (moved w) y x True;
          Some (True, w\<lparr>nxt := n1, moved := m1\<rparr>)
        }
      })"

section \<open>Randomness and the state of the program\<close>

text \<open>
  The module \<^verbatim>\<open>random\<close> is an ambient source of draws. It is modelled as an
  infinite sequence of raw natural numbers: each call reads the head of the sequence
  and leaves the tail. \<^verbatim>\<open>randint(a, b)\<close> maps the raw number into \<open>a .. b\<close>;
  \<^verbatim>\<open>random()\<close> returns a multiple of \<open>2\<^sup>-\<^sup>5\<^sup>3\<close> in \<open>[0, 1)\<close>, as the float that
  CPython builds from 53 random bits.
\<close>

type_synonym rng = "nat \<Rightarrow> nat"

definition randint :: "int \<Rightarrow> int \<Rightarrow> rng \<Rightarrow> int \<times> rng" where
  "randint a b r = (a + int (r 0) mod (b - a + 1), \<lambda>i. r (Suc i))"

definition random_unit :: "rng \<Rightarrow> rat \<times> rng" where
  "random_unit r = (of_nat (r 0 mod 2 ^ 53) / 2 ^ 53, \<lambda>i. r (Suc i))"

text \<open>
  What a rule can reach: the world it is given, the class attribute
  \<^verbatim>\<open>FireMaterial._lifetimes\<close> (one dictionary for the whole process, keyed by
  coordinate), and the random source.
\<close>

record sim =
  world :: World
  lifetimes :: "int \<times> int \<Rightarrow> int option"
  rng :: rng

text \<open>A method of the world called from a rule; the rule keeps the updated world.\<close>

definition world_swap :: "int \<Rightarrow> int \<Rightarrow> int \<Rightarrow> int \<Rightarrow> sim \<Rightarrow> (bool \<times> sim) option" where
  "world_swap x1 y1 x2 y2 s =
     do { (ok, w) \<leftarrow> swap_pixels x1 y1 x2 y2 (world s); Some (ok, s\<lparr>world := w\<rparr>) }"

definition world_try_set :: "int \<Rightarrow> int \<Rightarrow> MaterialType \<Rightarrow> sim \<Rightarrow> (bool \<times> sim) option" where
  "world_try_set x y t s =
     do { (ok, w) \<leftarrow> try_set x y t (world s); Some (ok, s\<lparr>world := w\<rparr>) }"

text \<open>A call \<^verbatim>\<open>world.swap_pixels(...)\<close> whose result the rule ignores.\<close>

definition swap_ignore :: "int \<Rightarrow> int \<Rightarrow> int \<Rightarrow> int \<Rightarrow> sim \<Rightarrow> sim option" where
  "swap_ignore x1 y1 x2 y2 s = do { (ok, s') \<leftarrow> world_swap x1 y1 x2 y2 s; Some s' }"

text \<open>
  The test \<^verbatim>\<open>m is not None and m.density < self.density\<close> that the falling rules
  apply to a neighbour.
\<close>

definition lighter :: "Material \<Rightarrow> Material option \<Rightarrow> bool" where
  "lighter self m = (case m of None \<Rightarrow> False | Some n \<Rightarrow> density n < density self)"

text \<open>The test \<^verbatim>\<open>m is not None and m.id == self.id\<close>.\<close>

definition same_material :: "Material \<Rightarrow> Material option \<Rightarrow> bool" where
  "same_material self m = (case m of None \<Rightarrow> False | Some n \<Rightarrow> material_id n = material_id self)"

text \<open>The test \<^verbatim>\<open>m is not None and m.id == MaterialType.EMPTY\<close>.\<close>

definition is_empty :: "Material option \<Rightarrow> bool" where
  "is_empty m = (case m of None \<Rightarrow> False | Some n \<Rightarrow> material_id n = EMPTY)"

section \<open>The update rules (material.py)\<close>

definition SandMaterial_update :: "int \<Rightarrow> int \<Rightarrow> sim \<Rightarrow> sim option" where
  "SandMaterial_update x y s = do {
     below \<leftarrow> get_material_at (world s) x (y + 1);
     if lighter SandMaterial below then swap_ignore x y x (y + 1) s
     else do {
       left_material \<leftarrow> get_material_at (world s) (x - 1) (y + 1);
       right_material \<leftarrow> get_material_at (world s) (x + 1) (y + 1);
       let left_passable = lighter SandMaterial left_material;
       let right_passable = lighter SandMaterial right_material;
       if left_passable \<and> right_passable then
         (let (c, r) = randint 0 1 (rng s) in
          if c = 0 then swap_ignore x y (x - 1) (y + 1) (s\<lparr>rng := r\<rparr>)
          else swap_ignore x y (x + 1) (y + 1) (s\<lparr>rng := r\<rparr>))
       else if left_passable then swap_ignore x y (x - 1) (y + 1) s
       else if right_passable then swap_ignore x y (x + 1) (y + 1) s
       else Some s
     }
   }"

definition WaterMaterial_update :: "int \<Rightarrow> int \<Rightarrow> sim \<Rightarrow> sim option" where
  "WaterMaterial_update x y s = do {
     below \<leftarrow> get_material_at (world s) x (y + 1);
     if lighter WaterMaterial below then swap_ignore x y x (y + 1) s
     else do {
       left_below \<leftarrow> get_material_at (world s) (x - 1) (y + 1);
       right_below \<leftarrow> get_material_at (world s) (x + 1) (y + 1);
       let left_below_passable = lighter WaterMaterial left_below;
       let right_below_passable = lighter WaterMaterial right_below;
       if left_below_passable \<and> right_below_passable then
         (let (c, r) = randint 0 1 (rng s) in
          if c = 0 then swap_ignore x y (x - 1) (y + 1) (s\<lparr>rng := r\<rparr>)
          else swap_ignore x y (x + 1) (y + 1) (s\<lparr>rng := r\<rparr>))
       else if left_below_passable then swap_ignore x y (x - 1) (y + 1) s
       else if right_below_passable then swap_ignore x y (x + 1) (y + 1) s
       else do {
         above \<leftarrow> get_material_at (world s) x (y - 1);
         if same_material WaterMaterial above then Some s
         else do {
           left \<leftarrow> get_material_at (world s) (x - 1) y;
           right \<leftarrow> get_material_at (world s) (x + 1) y;
           let left_passable = lighter WaterMaterial left;
           let right_passable = lighter WaterMaterial right;
           if left_passable \<and> right_passable then
             (let (c, r) = randint 0 1 (rng s) in
              if c = 0 then swap_ignore x y (x - 1) y (s\<lparr>rng := r\<rparr>)
              else swap_ignore x y (x + 1) y (s\<lparr>rng := r\<rparr>))
           else if left_passable then swap_ignore x y (x - 1) y s
           else if right_passable then swap_ignore x y (x + 1) y s
           else Some s
         }
       }
     }
   }"

definition OilMaterial_update :: "int \<Rightarrow> int \<Rightarrow> sim \<Rightarrow> sim option" where
  "OilMaterial_update x y s = do {
     below \<leftarrow> get_material_at (world s) x (y + 1);
     if lighter OilMaterial below then swap_ignore x y x (y + 1) s
     else do {
       left_below \<leftarrow> get_material_at (world s) (x - 1) (y + 1);
       right_below \<leftarrow> get_material_at (world s) (x + 1) (y + 1);
       let left_below_passable = lighter OilMaterial left_below;
       let right_below_passable = lighter OilMaterial right_below;
       if left_below_passable \<and> right_below_passable then
         (let (c, r) = randint 0 1 (rng s) in
          if c = 0 then swap_ignore x y (x - 1) (y + 1) (s\<lparr>rng := r\<rparr>)
          else swap_ignore x y (x + 1) (y + 1) (s\<lparr>rng := r\<rparr>))
       else if left_below_passable then swap_ignore x y (x - 1) (y + 1) s
       else if right_below_passable then swap_ignore x y (x + 1) (y + 1) s
       else do {
         above \<leftarrow> get_material_at (world s) x (y - 1);
         if same_material OilMaterial above then Some s
         else do {
           left \<leftarrow> get_material_at (world s) (x - 1) y;
           right \<leftarrow> get_material_at (world s) (x + 1) y;
           let left_passable = lighter OilMaterial left;
           let right_passable = lighter OilMaterial right;
           if left_passable \<and> right_passable then
             (let (c, r) = randint 0 1 (rng s) in
              if c = 0 then swap_ignore x y (x - 1) y (s\<lparr>rng := r\<rparr>)
              else swap_ignore x y (x + 1) y (s\<lparr>rng := r\<rparr>))
           else if left_passable then swap_ignore x y (x - 1) y s
           else if right_passable then swap_ignore x y (x + 1) y s
           else Some s
         }
       }
     }
   }"

text \<open>A \<^verbatim>\<open>for\<close> loop whose body may raise: the loop stops at the first exception.\<close>

primrec for_each :: "('a \<Rightarrow> 's \<Rightarrow> 's option) \<Rightarrow> 'a list \<Rightarrow> 's \<Rightarrow> 's option" where
  "for_each f [] s = Some s"
| "for_each f (x # xs) s = do { s' \<leftarrow> f x s; for_each f xs s' }"

text \<open>\<^verbatim>\<open>FireMaterial._move_lifetime\<close>, on the dictionary of lifetimes.\<close>

definition move_lifetime ::
  "int \<Rightarrow> int \<Rightarrow> int \<Rightarrow> int \<Rightarrow> (int \<times> int \<Rightarrow> int option) \<Rightarrow> (int \<times> int \<Rightarrow> int option)" where
  "move_lifetime x1 y1 x2 y2 lt =
     (case lt (x1, y1) of
        None \<Rightarrow> lt
      | Some v \<Rightarrow> (lt((x1, y1) := None))((x2, y2) \<mapsto> v))"

text \<open>
  \<^verbatim>\<open>if world.swap_pixels(x, y, x2, y2): self._move_lifetime(x, y, x2, y2)\<close>, the
  statement that every rising branch of the Fire rule executes.
\<close>

definition swap_and_move_lifetime :: "int \<Rightarrow> int \<Rightarrow> int \<Rightarrow> int \<Rightarrow> sim \<Rightarrow> sim option" where
  "swap_and_move_lifetime x y x2 y2 s = do {
     (ok, s') \<leftarrow> world_swap x y x2 y2 s;
     if ok then Some (s'\<lparr>lifetimes := move_lifetime x y x2 y2 (lifetimes s')\<rparr>) else Some s'
   }"

definition directions :: "(int \<times> int) list" where
  "directions = [(- 1, - 1), (0, - 1), (1, - 1), (- 1, 0), (1, 0), (- 1, 1), (0, 1), (1, 1)]"

text \<open>The body of the loop of \<^verbatim>\<open>_spread_fire\<close>, for one direction.\<close>

definition spread_to :: "int \<Rightarrow> int \<Rightarrow> int \<times> int \<Rightarrow> sim \<Rightarrow> sim option" where
  "spread_to x y d s =
     (let nx = x + fst d; ny = y + snd d in do {
        neighbor \<leftarrow> get_material_at (world s) nx ny;
        case neighbor of
          None \<Rightarrow> Some s
        | Some m \<Rightarrow>
            if flammable m then
              (let (u, r) = random_unit (rng s) in
               if u < 3 / 10
               then do { (ok, s') \<leftarrow> world_try_set nx ny FIRE (s\<lparr>rng := r\<rparr>); Some s' }
               else Some (s\<lparr>rng := r\<rparr>))
            else Some s
      })"

definition spread_fire :: "int \<Rightarrow> int \<Rightarrow> sim \<Rightarrow> sim option" where
  "spread_fire x y s = for_each (spread_to x y) directions s"

text \<open>
  The first two statements of \<^verbatim>\<open>FireMaterial.update\<close>: give the key a lifetime if it
  has none, then decrement it. The result is the state and the decremented lifetime.
\<close>

definition tick_lifetime :: "int \<Rightarrow> int \<Rightarrow> sim \<Rightarrow> (int \<times> sim) option" where
  "tick_lifetime x y s =
     (let s1 = (if lifetimes s (x, y) = None
                then (let (v, r) = randint 15 30 (rng s)
                      in s\<lparr>lifetimes := (lifetimes s)((x, y) \<mapsto> v), rng := r\<rparr>)
                else s)
      in case lifetimes s1 (x, y) of
           None \<Rightarrow> None
         | Some v \<Rightarrow> Some (v - 1, s1\<lparr>lifetimes := (lifetimes s1)((x, y) \<mapsto> v - 1)\<rparr>))"

text \<open>The rest of \<^verbatim>\<open>FireMaterial.update\<close> after the call of \<^verbatim>\<open>_spread_fire\<close>: the
  attempt to rise.\<close>

definition rise :: "int \<Rightarrow> int \<Rightarrow> sim \<Rightarrow> sim option" where
  "rise x y s = do {
     above \<leftarrow> get_material_at (world s) x (y - 1);
     if (case above of None \<Rightarrow> False | Some m \<Rightarrow> density m > density FireMaterial)
        \<and> is_empty above
     then swap_and_move_lifetime x y x (y - 1) s
     else do {
       left_above \<leftarrow> get_material_at (world s) (x - 1) (y - 1);
       right_above \<leftarrow> get_material_at (world s) (x + 1) (y - 1);
       let left_passable = is_empty left_above;
       let right_passable = is_empty right_above;
       if left_passable \<and> right_passable then
         (let (c, r) = randint 0 1 (rng s) in
          if c = 0 then swap_and_move_lifetime x y (x - 1) (y - 1) (s\<lparr>rng := r\<rparr>)
          else swap_and_move_lifetime x y (x + 1) (y - 1) (s\<lparr>rng := r\<rparr>))
       else if left_passable then swap_and_move_lifetime x y (x - 1) (y - 1) s
       else if right_passable then swap_and_move_lifetime x y (x + 1) (y - 1) s
       else Some s
     }
   }"

definition FireMaterial_update :: "int \<Rightarrow> int \<Rightarrow> sim \<Rightarrow> sim option" where
  "FireMaterial_update x y s = do {
     (life, s1) \<leftarrow> tick_lifetime x y s;
     if life \<le> 0 then do {
       (ok, s2) \<leftarrow> world_try_set x y EMPTY (s1\<lparr>lifetimes := (lifetimes s1)((x, y) := None)\<rparr>);
       Some s2
     }
     else do {
       s2 \<leftarrow> spread_fire x y s1;
       rise x y s2
     }
   }"

section \<open>One step of the simulation (world.py)\<close>

text \<open>The call \<^verbatim>\<open>mat.update(x, y, self)\<close>, dispatched on the class of \<^verbatim>\<open>mat\<close>.\<close>

fun Material_update :: "Material \<Rightarrow> int \<Rightarrow> int \<Rightarrow> sim \<Rightarrow> sim option" where
  "Material_update EmptyMaterial x y s = Some s"
| "Material_update WallMaterial x y s = Some s"
| "Material_update SandMaterial x y s = SandMaterial_update x y s"
| "Material_update WaterMaterial x y s = WaterMaterial_update x y s"
| "Material_update OilMaterial x y s = OilMaterial_update x y s"
| "Material_update FireMaterial x y s = FireMaterial_update x y s"

text \<open>The body of the inner loop of \<^verbatim>\<open>_update_pass\<close>, for the cell \<open>(x, y)\<close>.\<close>

definition visit :: "MaterialType set \<Rightarrow> int \<Rightarrow> int \<Rightarrow> sim \<Rightarrow> sim option" where
  "visit target_ids y x s = do {
     m \<leftarrow> grid_get (moved (world s)) y x;
     if m then Some s
     else do {
       pid \<leftarrow> grid_get (cur (world s)) y x;
       if pid \<in> target_ids then
         (case registry_get (type_value pid) of
            None \<Rightarrow> Some s
          | Some mat \<Rightarrow> Material_update mat x y s)
       else Some s
     }
   }"

text \<open>\<^verbatim>\<open>range(n - 1, -1, -1)\<close>.\<close>

definition py_range_down :: "int \<Rightarrow> int list" where
  "py_range_down n = rev (py_range n)"

definition x_range :: "World \<Rightarrow> int list" where
  "x_range w =
     (if frame_count w mod 2 = 0 then py_range (width w) else py_range_down (width w))"

definition update_pass :: "MaterialType set \<Rightarrow> sim \<Rightarrow> sim option" where
  "update_pass target_ids s =
     for_each (\<lambda>y s. for_each (\<lambda>x s. visit target_ids y x s) (x_range (world s)) s)
       (py_range_down (height (world s))) s"

text \<open>\<^verbatim>\<open>self._nxt[y][:] = self._cur[y][:]\<close>: row \<open>y\<close> of the next buffer gets the content
  of row \<open>y\<close> of the current one.\<close>

definition copy_row :: "int \<Rightarrow> World \<Rightarrow> World option" where
  "copy_row y w = do {
     src \<leftarrow> py_index (cur w) y;
     n \<leftarrow> py_store (nxt w) y src;
     Some (w\<lparr>nxt := n\<rparr>)
   }"

definition reset_row :: "int \<Rightarrow> World \<Rightarrow> World option" where
  "reset_row y w = do {
     row \<leftarrow> py_index (moved w) y;
     row' \<leftarrow> for_each (\<lambda>x r. py_store r x False) (py_range (width w)) row;
     m \<leftarrow> py_store (moved w) y row';
     Some (w\<lparr>moved := m\<rparr>)
   }"

definition reset_moved_flags :: "World \<Rightarrow> World option" where
  "reset_moved_flags w = for_each reset_row (py_range (height w)) w"

text \<open>Steps 1 and 2 of \<^verbatim>\<open>update\<close>: the next buffer becomes a copy of the current
  one and the flags are reset.\<close>

definition begin_frame :: "World \<Rightarrow> World option" where
  "begin_frame w = do {
     w1 \<leftarrow> for_each copy_row (py_range (height w)) w;
     reset_moved_flags w1
   }"

text \<open>The last two statements of \<^verbatim>\<open>update\<close>: the buffers change places and the
  frame counter is incremented.\<close>

definition end_frame :: "World \<Rightarrow> World" where
  "end_frame w = w\<lparr>cur := nxt w, nxt := cur w, frame_count := frame_count w + 1\<rparr>"

definition update :: "sim \<Rightarrow> sim option" where
  "update s = do {
     w \<leftarrow> begin_frame (world s);
     s1 \<leftarrow> update_pass {FIRE} (s\<lparr>world := w\<rparr>);
     s2 \<leftarrow> update_pass {SAND} s1;
     s3 \<leftarrow> update_pass {WATER, OIL} s2;
     Some (s3\<lparr>world := end_frame (world s3)\<rparr>)
   }"

text \<open>\<^verbatim>\<open>world.clear()\<close> as it acts on the state of the program: the method assigns
  three attributes of the world and nothing else.\<close>

definition call_clear :: "sim \<Rightarrow> sim" where
  "call_clear s = s\<lparr>world := clear (world s)\<rparr>"

text \<open>\<open>n\<close> calls of \<^verbatim>\<open>update\<close> in a row.\<close>

primrec updates :: "nat \<Rightarrow> sim \<Rightarrow> sim option" where
  "updates 0 s = Some s"
| "updates (Suc n) s = do { s' \<leftarrow> update s; updates n s' }"

section \<open>Well-formed worlds\<close>

text \<open>
  The constructor builds three grids of \<open>height\<close> rows of \<open>width\<close> cells each, and no
  method changes a dimension. That is the invariant under which no index is out of
  range.
\<close>

definition wf_grid :: "int \<Rightarrow> int \<Rightarrow> 'a list list \<Rightarrow> bool" where
  "wf_grid w h g \<longleftrightarrow> length g = nat h \<and> (\<forall>row \<in> set g. length row = nat w)"

definition wf_world :: "World \<Rightarrow> bool" where
  "wf_world w \<longleftrightarrow>
     wf_grid (width w) (height w) (cur w) \<and>
     wf_grid (width w) (height w) (nxt w) \<and>
     wf_grid (width w) (height w) (moved w)"

text \<open>The content of the cell \<open>(x, y)\<close> of a grid, and the grid with one cell replaced,
  for coordinates inside the grid.\<close>

definition cell :: "'a list list \<Rightarrow> int \<Rightarrow> int \<Rightarrow> 'a" where
  "cell g x y = g ! nat y ! nat x"

definition put :: "'a list list \<Rightarrow> int \<Rightarrow> int \<Rightarrow> 'a \<Rightarrow> 'a list list" where
  "put g x y v = g[nat y := (g ! nat y)[nat x := v]]"

text \<open>A cell that a primitive may still write: inside the grid and not resolved in this
  frame.\<close>

definition writable :: "World \<Rightarrow> int \<Rightarrow> int \<Rightarrow> bool" where
  "writable w x y \<longleftrightarrow> is_valid_position w x y \<and> \<not> cell (moved w) x y"

section \<open>The rules as the specification words them\<close>

text \<open>
  The definitions of this section are written from the specification, over the pure
  reading \<open>cell\<close> of a grid, so that they can be compared with the rules translated from
  the source. The registry maps each identifier to its material.
\<close>

fun material_of :: "MaterialType \<Rightarrow> Material" where
  "material_of EMPTY = EmptyMaterial"
| "material_of WALL = WallMaterial"
| "material_of SAND = SandMaterial"
| "material_of WATER = WaterMaterial"
| "material_of OIL = OilMaterial"
| "material_of FIRE = FireMaterial"

text \<open>\<open>get_material(x, y)\<close>: the material of the current buffer at \<open>(x, y)\<close>, none outside
  the grid.\<close>

definition material_at :: "World \<Rightarrow> int \<Rightarrow> int \<Rightarrow> Material option" where
  "material_at w x y =
     (if is_valid_position w x y then Some (material_of (cell (cur w) x y)) else None)"

text \<open>A neighbour is passable for a material when the cell exists and its material has
  strictly lower density.\<close>

definition passable :: "World \<Rightarrow> Material \<Rightarrow> int \<times> int \<Rightarrow> bool" where
  "passable w self c \<longleftrightarrow>
     is_valid_position w (fst c) (snd c)
     \<and> density (material_of (cell (cur w) (fst c) (snd c))) < density self"

text \<open>A neighbour into which Fire may rise: the cell exists and is Empty.\<close>

definition empty_at :: "World \<Rightarrow> int \<times> int \<Rightarrow> bool" where
  "empty_at w c \<longleftrightarrow> is_valid_position w (fst c) (snd c) \<and> cell (cur w) (fst c) (snd c) = EMPTY"

text \<open>
  The choice between two candidate cells: when both qualify one draw of the random
  source decides, when exactly one qualifies it is taken, and when neither qualifies
  there is no target. The result is the target and the random source left over.
\<close>

definition pick_target :: "bool \<Rightarrow> bool \<Rightarrow> int \<times> int \<Rightarrow> int \<times> int \<Rightarrow> rng \<Rightarrow> (int \<times> int) option \<times> rng" where
  "pick_target l r a b g =
     (if l \<and> r then (let (c, g') = randint 0 1 g in (Some (if c = 0 then a else b), g'))
      else if l then (Some a, g)
      else if r then (Some b, g)
      else (None, g))"

text \<open>Sand: straight down if the cell below is passable, else one of the two cells
  diagonally below.\<close>

definition sand_rule :: "int \<Rightarrow> int \<Rightarrow> sim \<Rightarrow> (int \<times> int) option \<times> rng" where
  "sand_rule x y s =
     (if passable (world s) SandMaterial (x, y + 1) then (Some (x, y + 1), rng s)
      else pick_target (passable (world s) SandMaterial (x - 1, y + 1))
             (passable (world s) SandMaterial (x + 1, y + 1)) (x - 1, y + 1) (x + 1, y + 1) (rng s))"

text \<open>
  Water and Oil: (1) straight down if the cell below is passable; (2) else a passable
  cell diagonally below; (3) else, unless the cell directly above holds the same
  material, a passable cell to the left or to the right.
\<close>

definition fluid_rule :: "Material \<Rightarrow> int \<Rightarrow> int \<Rightarrow> sim \<Rightarrow> (int \<times> int) option \<times> rng" where
  "fluid_rule self x y s =
     (if passable (world s) self (x, y + 1) then (Some (x, y + 1), rng s)
      else if passable (world s) self (x - 1, y + 1) \<or> passable (world s) self (x + 1, y + 1)
      then pick_target (passable (world s) self (x - 1, y + 1)) (passable (world s) self (x + 1, y + 1))
             (x - 1, y + 1) (x + 1, y + 1) (rng s)
      else if is_valid_position (world s) x (y - 1)
              \<and> cell (cur (world s)) x (y - 1) = material_id self
      then (None, rng s)
      else pick_target (passable (world s) self (x - 1, y)) (passable (world s) self (x + 1, y))
             (x - 1, y) (x + 1, y) (rng s))"

text \<open>
  \<open>swap(x1, y1, x2, y2)\<close>: no effect if either cell is outside the grid or already
  resolved; otherwise the two current values are written exchanged into the next buffer
  and both cells are marked resolved.
\<close>

definition swapped :: "int \<Rightarrow> int \<Rightarrow> int \<Rightarrow> int \<Rightarrow> World \<Rightarrow> World" where
  "swapped x1 y1 x2 y2 w =
     (if writable w x1 y1 \<and> writable w x2 y2
      then w\<lparr>nxt := put (put (nxt w) x1 y1 (cell (cur w) x2 y2)) x2 y2 (cell (cur w) x1 y1),
             moved := put (put (moved w) x1 y1 True) x2 y2 True\<rparr>
      else w)"

text \<open>A rule that has settled on a target requests the swap of its own cell with the
  target; a rule without a target does nothing.\<close>

definition request_swap :: "int \<Rightarrow> int \<Rightarrow> (int \<times> int) option \<times> rng \<Rightarrow> sim \<Rightarrow> sim" where
  "request_swap x y d s =
     (case fst d of
        None \<Rightarrow> s\<lparr>rng := snd d\<rparr>
      | Some c \<Rightarrow> s\<lparr>world := swapped x y (fst c) (snd c) (world s), rng := snd d\<rparr>)"

text \<open>
  \<open>overwrite_next(x, y, id)\<close>: no effect if the cell is outside the grid or already
  resolved; otherwise the identifier is written into the next slot of the cell and the
  cell is marked resolved.
\<close>

definition overwritten :: "int \<Rightarrow> int \<Rightarrow> MaterialType \<Rightarrow> World \<Rightarrow> World" where
  "overwritten x y t w =
     (if writable w x y then w\<lparr>nxt := put (nxt w) x y t, moved := put (moved w) x y True\<rparr>
      else w)"

text \<open>The lifetime of the Fire at \<open>(x, y)\<close> before this tick: the recorded one, or on the
  first tick at that coordinate (no entry under the key) a draw from \<open>15 .. 30\<close>.\<close>

definition lifetime_before :: "int \<Rightarrow> int \<Rightarrow> sim \<Rightarrow> int \<times> rng" where
  "lifetime_before x y s =
     (case lifetimes s (x, y) of Some v \<Rightarrow> (v, rng s) | None \<Rightarrow> randint 15 30 (rng s))"

text \<open>The chance given to one neighbour: if the cell exists and its material is
  flammable, a draw of its own from \<open>[0, 1)\<close> is compared with \<open>0.3\<close>, and below that the
  cell is overwritten to Fire.\<close>

definition ignite :: "int \<times> int \<Rightarrow> sim \<Rightarrow> sim" where
  "ignite c s =
     (if is_valid_position (world s) (fst c) (snd c)
         \<and> flammable (material_of (cell (cur (world s)) (fst c) (snd c)))
      then (let (u, g) = random_unit (rng s) in
            if u < 3 / 10
            then s\<lparr>world := overwritten (fst c) (snd c) FIRE (world s), rng := g\<rparr>
            else s\<lparr>rng := g\<rparr>)
      else s)"

text \<open>The eight neighbours of \<open>(x, y)\<close>, row by row.\<close>

definition neighbours :: "int \<Rightarrow> int \<Rightarrow> (int \<times> int) list" where
  "neighbours x y =
     [(x - 1, y - 1), (x, y - 1), (x + 1, y - 1), (x - 1, y), (x + 1, y),
      (x - 1, y + 1), (x, y + 1), (x + 1, y + 1)]"

text \<open>Where Fire tries to rise to: the cell directly above if it is Empty, else one of
  the two cells diagonally above that are Empty.\<close>

definition fire_target :: "int \<Rightarrow> int \<Rightarrow> sim \<Rightarrow> (int \<times> int) option \<times> rng" where
  "fire_target x y s =
     (if empty_at (world s) (x, y - 1) then (Some (x, y - 1), rng s)
      else pick_target (empty_at (world s) (x - 1, y - 1)) (empty_at (world s) (x + 1, y - 1))
             (x - 1, y - 1) (x + 1, y - 1) (rng s))"

text \<open>The lifetime entry is removed from the source key and inserted at the destination
  key.\<close>

definition relocate ::
  "int \<times> int \<Rightarrow> int \<times> int \<Rightarrow> (int \<times> int \<Rightarrow> int option) \<Rightarrow> (int \<times> int \<Rightarrow> int option)" where
  "relocate a b lt = (lt(a := None))(b := lt a)"

text \<open>Fire requests the swap with its target; only when the swap succeeds is the
  lifetime entry relocated.\<close>

definition request_rise :: "int \<Rightarrow> int \<Rightarrow> (int \<times> int) option \<times> rng \<Rightarrow> sim \<Rightarrow> sim" where
  "request_rise x y d s =
     (case fst d of
        None \<Rightarrow> s\<lparr>rng := snd d\<rparr>
      | Some c \<Rightarrow>
          if writable (world s) x y \<and> writable (world s) (fst c) (snd c)
          then s\<lparr>world := swapped x y (fst c) (snd c) (world s),
                 lifetimes := relocate (x, y) c (lifetimes s), rng := snd d\<rparr>
          else s\<lparr>rng := snd d\<rparr>)"

text \<open>
  Fire: the lifetime is decremented; at zero the entry is deleted and the cell is
  overwritten to Empty, and that is all; otherwise each neighbour gets its chance to
  ignite, and then the Fire tries to rise.
\<close>

definition fire_rule :: "int \<Rightarrow> int \<Rightarrow> sim \<Rightarrow> sim" where
  "fire_rule x y s =
     (let (v, g) = lifetime_before x y s; life = v - 1 in
      if life \<le> 0
      then s\<lparr>world := overwritten x y EMPTY (world s),
             lifetimes := (lifetimes s)((x, y) := None), rng := g\<rparr>
      else (let s1 = fold ignite (neighbours x y)
                       (s\<lparr>lifetimes := (lifetimes s)((x, y) \<mapsto> life), rng := g\<rparr>)
            in request_rise x y (fire_target x y s1) s1))"

section \<open>The step as the specification words it\<close>

text \<open>The update rule of each material.\<close>

fun rule_of :: "MaterialType \<Rightarrow> int \<Rightarrow> int \<Rightarrow> sim \<Rightarrow> sim" where
  "rule_of EMPTY x y s = s"
| "rule_of WALL x y s = s"
| "rule_of SAND x y s = request_swap x y (sand_rule x y s) s"
| "rule_of WATER x y s = request_swap x y (fluid_rule WaterMaterial x y s) s"
| "rule_of OIL x y s = request_swap x y (fluid_rule OilMaterial x y s) s"
| "rule_of FIRE x y s = fire_rule x y s"

text \<open>
  The order in which a pass visits the cells: the rows from the bottom one
  (\<open>y = height - 1\<close>) up to the top one (\<open>y = 0\<close>), and within a row the columns from left
  to right when the frame counter is even and from right to left when it is odd.
\<close>

definition columns :: "World \<Rightarrow> int list" where
  "columns w =
     (if even (frame_count w) then map int [0..<nat (width w)]
      else map int (rev [0..<nat (width w)]))"

definition scan_order :: "World \<Rightarrow> (int \<times> int) list" where
  "scan_order w =
     concat (map (\<lambda>y. map (\<lambda>x. (x, y)) (columns w)) (map int (rev [0..<nat (height w)])))"

text \<open>Visiting a cell in a pass: its rule is invoked only if the cell is not yet resolved
  in this frame and its identifier is in the target set of the pass.\<close>

definition visited :: "MaterialType set \<Rightarrow> int \<times> int \<Rightarrow> sim \<Rightarrow> sim" where
  "visited target_ids c s =
     (if \<not> cell (moved (world s)) (fst c) (snd c) \<and> cell (cur (world s)) (fst c) (snd c) \<in> target_ids
      then rule_of (cell (cur (world s)) (fst c) (snd c)) (fst c) (snd c) s
      else s)"

definition pass :: "MaterialType set \<Rightarrow> sim \<Rightarrow> sim" where
  "pass target_ids s = fold (visited target_ids) (scan_order (world s)) s"

text \<open>
  \<open>step()\<close>: the next buffer starts as a copy of the current one and the resolved mask
  as all false; then come the passes for Fire, for Sand and for Water and Oil, in that
  order; at the end the two buffers change places and the frame counter grows by one.
\<close>

definition start_of_step :: "sim \<Rightarrow> sim" where
  "start_of_step s =
     s\<lparr>world := (world s)\<lparr>nxt := cur (world s),
                          moved := replicate (nat (height (world s)))
                                     (replicate (nat (width (world s))) False)\<rparr>\<rparr>"

definition passes :: "sim \<Rightarrow> sim" where
  "passes s = pass {WATER, OIL} (pass {SAND} (pass {FIRE} (start_of_step s)))"

definition step :: "sim \<Rightarrow> sim" where
  "step s =
     (let s' = passes s in
      s'\<lparr>world := (world s')\<lparr>cur := nxt (world s'), nxt := cur (world s'),
                            frame_count := frame_count (world s') + 1\<rparr>\<rparr>)"

section \<open>Primitive calls within a step\<close>

text \<open>A call of one of the three mutation primitives, and the cells it involves.\<close>

datatype primitive =
  Swap int int int int | Move int int int int | Overwrite int int MaterialType

fun run_primitive :: "primitive \<Rightarrow> World \<Rightarrow> (bool \<times> World) option" where
  "run_primitive (Swap x1 y1 x2 y2) w = swap_pixels x1 y1 x2 y2 w"
| "run_primitive (Move x1 y1 x2 y2) w = try_move x1 y1 x2 y2 w"
| "run_primitive (Overwrite x y t) w = try_set x y t w"

fun involves :: "primitive \<Rightarrow> int \<Rightarrow> int \<Rightarrow> bool" where
  "involves (Swap x1 y1 x2 y2) x y \<longleftrightarrow> (x, y) = (x1, y1) \<or> (x, y) = (x2, y2)"
| "involves (Move x1 y1 x2 y2) x y \<longleftrightarrow> (x, y) = (x1, y1) \<or> (x, y) = (x2, y2)"
| "involves (Overwrite x1 y1 t) x y \<longleftrightarrow> (x, y) = (x1, y1)"

text \<open>
  A sequence of primitive calls, one after the other, whatever each of them returns.
  Between the reset of the resolved mask at the start of a step and the exchange of the
  buffers at its end, the world changes in no other way.
\<close>

primrec run_calls :: "primitive list \<Rightarrow> World \<Rightarrow> World option" where
  "run_calls [] w = Some w"
| "run_calls (p # ps) w = do { (ok, w') \<leftarrow> run_primitive p w; run_calls ps w' }"

text \<open>\<open>later w w'\<close>: the world \<open>w'\<close> is reached from \<open>w\<close> by some sequence of primitive
  calls. The relation is the form of \<open>run_calls\<close> that suits induction.\<close>

inductive later :: "World \<Rightarrow> World \<Rightarrow> bool" where
  now: "later w w"
| call: "later w w1 \<Longrightarrow> run_primitive p w1 = Some (ok, w2) \<Longrightarrow> later w w2"

section \<open>Example states\<close>

text \<open>A column one cell wide and two cells high, with Fire in the bottom cell.\<close>

definition fire_column :: World where
  "fire_column =
     \<lparr> width = 1, height = 2, cur = [[EMPTY], [FIRE]], nxt = [[EMPTY], [FIRE]],
       moved = [[False], [False]], frame_count = 0 \<rparr>"

text \<open>A state of the program around a world: no lifetime recorded, and a random source
  whose every raw draw is \<open>k\<close>.\<close>

definition fresh_state :: "World \<Rightarrow> nat \<Rightarrow> sim" where
  "fresh_state w k = \<lparr> world = w, lifetimes = Map.empty, rng = (\<lambda>_. k) \<rparr>"

text \<open>Sand on top of a Wall, with Empty cells on both sides below.\<close>

definition sand_on_wall :: World where
  "sand_on_wall =
     \<lparr> width = 3, height = 2,
       cur = [[EMPTY, SAND, EMPTY], [EMPTY, WALL, EMPTY]],
       nxt = [[EMPTY, SAND, EMPTY], [EMPTY, WALL, EMPTY]],
       moved = [[False, False, False], [False, False, False]], frame_count = 0 \<rparr>"

text \<open>One row with Water (or Oil) between two Empty cells.\<close>

definition fluid_row :: "MaterialType \<Rightarrow> World" where
  "fluid_row t =
     \<lparr> width = 3, height = 1, cur = [[EMPTY, t, EMPTY]], nxt = [[EMPTY, t, EMPTY]],
       moved = [[False, False, False]], frame_count = 0 \<rparr>"

text \<open>One row with Fire next to Oil.\<close>

definition fire_oil_row :: World where
  "fire_oil_row =
     \<lparr> width = 2, height = 1, cur = [[FIRE, OIL]], nxt = [[FIRE, OIL]],
       moved = [[False, False]], frame_count = 0 \<rparr>"

text \<open>The grid of a column one cell wide and \<open>H\<close> cells high that is Empty except for
  one Sand cell in row \<open>j\<close>.\<close>

definition sand_at :: "nat \<Rightarrow> nat \<Rightarrow> MaterialType list list" where
  "sand_at H j = (replicate H [EMPTY])[j := [SAND]]"

text \<open>Such a column of height 2 with the Sand in row 0.\<close>

definition sand_column :: World where
  "sand_column =
     \<lparr> width = 1, height = 2, cur = [[SAND], [EMPTY]], nxt = [[EMPTY], [EMPTY]],
       moved = [[False], [False]], frame_count = 0 \<rparr>"



section \<open>Facts about lists and grids\<close>

lemma registry_material_of [simp]: "registry_get (type_value t) = Some (material_of t)"
  by (cases t) (simp_all add: registry_get_def registered_def)

lemma material_id_of [simp]: "material_id (material_of t) = t"
  by (cases t) simp_all

lemma type_value_nonneg [simp]: "\<not> type_value t < 0"
  by (cases t) simp_all

lemma py_index_nat:
  "0 \<le> i \<Longrightarrow> i < int (length xs) \<Longrightarrow> py_index xs i = Some (xs ! nat i)"
  by (simp add: py_index_def py_position_def)

lemma py_store_nat:
  "0 \<le> i \<Longrightarrow> i < int (length xs) \<Longrightarrow> py_store xs i v = Some (xs[nat i := v])"
  by (simp add: py_store_def py_position_def)

lemma grid_get_wf:
  assumes "wf_grid W H g" "0 \<le> x" "x < W" "0 \<le> y" "y < H"
  shows "grid_get g y x = Some (cell g x y)"
proof -
  have ly: "y < int (length g)" using assms by (simp add: wf_grid_def)
  have "nat y < length g" using assms by (simp add: wf_grid_def)
  then have "g ! nat y \<in> set g" by simp
  then have lx: "x < int (length (g ! nat y))" using assms by (simp add: wf_grid_def)
  show ?thesis
    using assms ly lx by (simp add: grid_get_def py_index_nat cell_def)
qed

lemma grid_set_wf:
  assumes "wf_grid W H g" "0 \<le> x" "x < W" "0 \<le> y" "y < H"
  shows "grid_set g y x v = Some (put g x y v)"
proof -
  have ly: "y < int (length g)" using assms by (simp add: wf_grid_def)
  have "nat y < length g" using assms by (simp add: wf_grid_def)
  then have "g ! nat y \<in> set g" by simp
  then have lx: "x < int (length (g ! nat y))" using assms by (simp add: wf_grid_def)
  show ?thesis
    using assms ly lx by (simp add: grid_set_def py_index_nat py_store_nat put_def)
qed

lemma wf_grid_put:
  assumes "wf_grid W H g"
  shows "wf_grid W H (put g x y v)"
proof (cases "nat y < length g")
  case True
  then have "g ! nat y \<in> set g" by simp
  then have len: "length ((g ! nat y)[nat x := v]) = nat W"
    using assms by (simp add: wf_grid_def)
  have "\<And>row. row \<in> set (g[nat y := (g ! nat y)[nat x := v]]) \<Longrightarrow> length row = nat W"
  proof -
    fix row assume "row \<in> set (g[nat y := (g ! nat y)[nat x := v]])"
    then have "row = (g ! nat y)[nat x := v] \<or> row \<in> set g"
      using set_update_subset_insert by fastforce
    then show "length row = nat W" using len assms by (auto simp: wf_grid_def)
  qed
  then show ?thesis using assms by (simp add: wf_grid_def put_def)
next
  case False
  then have "g[nat y := (g ! nat y)[nat x := v]] = g" by (intro list_update_beyond) simp
  then show ?thesis using assms by (simp add: put_def)
qed

lemma cell_put:
  assumes "wf_grid W H g" "0 \<le> x" "x < W" "0 \<le> y" "y < H" "0 \<le> x'" "x' < W" "0 \<le> y'" "y' < H"
  shows "cell (put g x y v) x' y' = (if x' = x \<and> y' = y then v else cell g x' y')"
proof -
  have ly: "nat y < length g" "nat y' < length g" using assms by (simp_all add: wf_grid_def)
  then have "g ! nat y \<in> set g" by simp
  then have lx: "nat x < length (g ! nat y)" using assms by (simp add: wf_grid_def)
  show ?thesis
    using assms ly lx by (auto simp: cell_def put_def nth_list_update)
qed


section \<open>The primitives on a well-formed world\<close>

lemma wf_worldD:
  assumes "wf_world w"
  shows "wf_grid (width w) (height w) (cur w)" "wf_grid (width w) (height w) (nxt w)"
    "wf_grid (width w) (height w) (moved w)"
  using assms by (simp_all add: wf_world_def)

lemma get_cur: "wf_world w \<Longrightarrow> is_valid_position w x y \<Longrightarrow> grid_get (cur w) y x = Some (cell (cur w) x y)"
  by (simp add: grid_get_wf [OF wf_worldD(1)] is_valid_position_def)

lemma get_moved: "wf_world w \<Longrightarrow> is_valid_position w x y \<Longrightarrow> grid_get (moved w) y x = Some (cell (moved w) x y)"
  by (simp add: grid_get_wf [OF wf_worldD(3)] is_valid_position_def)

lemma set_grid:
  "wf_grid (width w) (height w) g \<Longrightarrow> is_valid_position w x y \<Longrightarrow> grid_set g y x v = Some (put g x y v)"
  by (simp add: grid_set_wf is_valid_position_def)

lemma either_moved_wf:
  "wf_world w \<Longrightarrow> is_valid_position w x1 y1 \<Longrightarrow> is_valid_position w x2 y2 \<Longrightarrow>
   either_moved w x1 y1 x2 y2 = Some (cell (moved w) x1 y1 \<or> cell (moved w) x2 y2)"
  by (simp add: either_moved_def get_moved)

lemma swap_pixels_wf:
  assumes "wf_world w"
  shows "swap_pixels x1 y1 x2 y2 w =
     (if writable w x1 y1 \<and> writable w x2 y2
      then Some (True, w\<lparr>nxt := put (put (nxt w) x1 y1 (cell (cur w) x2 y2)) x2 y2 (cell (cur w) x1 y1),
                         moved := put (put (moved w) x1 y1 True) x2 y2 True\<rparr>)
      else Some (False, w))"
  using assms
  by (simp add: swap_pixels_def writable_def either_moved_wf get_cur set_grid [where w = w] wf_worldD wf_grid_put)

lemma try_move_wf:
  assumes "wf_world w"
  shows "try_move x1 y1 x2 y2 w =
     (if writable w x1 y1 \<and> writable w x2 y2
      then Some (True, w\<lparr>nxt := put (put (nxt w) x2 y2 (cell (cur w) x1 y1)) x1 y1 EMPTY,
                         moved := put (put (moved w) x1 y1 True) x2 y2 True\<rparr>)
      else Some (False, w))"
  using assms
  by (simp add: try_move_def writable_def either_moved_wf get_cur set_grid [where w = w] wf_worldD wf_grid_put)

lemma try_set_wf:
  assumes "wf_world w"
  shows "try_set x y t w =
     (if writable w x y
      then Some (True, w\<lparr>nxt := put (nxt w) x y t, moved := put (moved w) x y True\<rparr>)
      else Some (False, w))"
  using assms
  by (simp add: try_set_def writable_def get_moved set_grid [where w = w] wf_worldD)


lemma wf_fire_column: "wf_world fire_column"
  by (simp add: fire_column_def wf_world_def wf_grid_def)

text \<open>
  Claim C3. On a well-formed world each of the three mutation primitives returns false
  and leaves the world as it was when one of its cells is outside the grid or already
  resolved in this frame. Otherwise it returns true, changes only the next buffer and
  the resolved mask, and marks its cells resolved: \<open>swap_pixels\<close> writes the current
  value of the second cell into the next slot of the first and the current value of the
  first into the next slot of the second; \<open>try_move\<close> writes the current value of the
  source into the next slot of the destination and then \<open>EMPTY\<close> into the next slot of
  the source; \<open>try_set\<close> writes the given identifier into the next slot of its cell.
\<close>

theorem primitives_contract:
  assumes "wf_world w"
  shows "swap_pixels x1 y1 x2 y2 w =
           (if writable w x1 y1 \<and> writable w x2 y2
            then Some (True,
                   w\<lparr>nxt := put (put (nxt w) x1 y1 (cell (cur w) x2 y2)) x2 y2 (cell (cur w) x1 y1),
                     moved := put (put (moved w) x1 y1 True) x2 y2 True\<rparr>)
            else Some (False, w))
       \<and> try_move x1 y1 x2 y2 w =
           (if writable w x1 y1 \<and> writable w x2 y2
            then Some (True,
                   w\<lparr>nxt := put (put (nxt w) x2 y2 (cell (cur w) x1 y1)) x1 y1 EMPTY,
                     moved := put (put (moved w) x1 y1 True) x2 y2 True\<rparr>)
            else Some (False, w))
       \<and> try_set x y t w =
           (if writable w x y
            then Some (True, w\<lparr>nxt := put (nxt w) x y t, moved := put (moved w) x y True\<rparr>)
            else Some (False, w))"
  using assms by (simp only: swap_pixels_wf try_move_wf try_set_wf simp_thms)

theorem primitives_contract_witness:
  "wf_world fire_column
   \<and> swap_pixels 0 1 0 0 fire_column =
       Some (True, fire_column\<lparr>nxt := [[FIRE], [EMPTY]], moved := [[True], [True]]\<rparr>)
   \<and> try_move 0 1 0 0 fire_column =
       Some (True, fire_column\<lparr>nxt := [[FIRE], [EMPTY]], moved := [[True], [True]]\<rparr>)
   \<and> try_set 0 1 SAND fire_column =
       Some (True, fire_column\<lparr>nxt := [[EMPTY], [SAND]], moved := [[False], [True]]\<rparr>)
   \<and> try_set 0 2 SAND fire_column = Some (False, fire_column)"
  using primitives_contract [OF wf_fire_column, of 0 1 0 0 0 1 SAND]
    primitives_contract [OF wf_fire_column, of 0 1 0 0 0 2 SAND] wf_fire_column
  by (simp add: writable_def is_valid_position_def cell_def put_def fire_column_def)


section \<open>Queries and edits\<close>

lemma get_pixel_wf:
  "wf_world w \<Longrightarrow> get_pixel w x y =
     Some (if is_valid_position w x y then type_value (cell (cur w) x y) else - 1)"
  by (simp add: get_pixel_def get_cur)

lemma get_material_at_wf:
  "wf_world w \<Longrightarrow> get_material_at w x y =
     Some (if is_valid_position w x y then registry_get (type_value (cell (cur w) x y)) else None)"
  by (simp add: get_material_at_def get_pixel_wf)

lemma set_pixel_wf:
  "wf_world w \<Longrightarrow> set_pixel x y t w =
     (if is_valid_position w x y then Some (True, w\<lparr>cur := put (cur w) x y t\<rparr>) else Some (False, w))"
  by (simp add: set_pixel_def set_grid [where w = w] wf_worldD)

lemma is_updated_wf:
  "wf_world w \<Longrightarrow> is_updated w x y = Some (is_valid_position w x y \<longrightarrow> cell (moved w) x y)"
  by (simp add: is_updated_def get_moved)

lemma mark_updated_wf:
  "wf_world w \<Longrightarrow> mark_updated x y w =
     Some (if is_valid_position w x y then w\<lparr>moved := put (moved w) x y True\<rparr> else w)"
  by (simp add: mark_updated_def set_grid [where w = w] wf_worldD)

text \<open>
  Claim C10. For coordinates outside the grid \<open>get_material_at\<close> returns none,
  \<open>get_pixel\<close> returns \<open>-1\<close>, \<open>set_pixel\<close> returns false and writes nothing, the
  three primitives return false and change nothing (whichever of their two cells is
  outside), \<open>is_updated\<close> returns true and \<open>mark_updated\<close> changes nothing; and on a
  well-formed world no coordinate at all makes one of these operations raise.
\<close>

theorem out_of_bounds_total:
  "(\<not> is_valid_position w x y \<longrightarrow>
      get_material_at w x y = Some None \<and> get_pixel w x y = Some (- 1)
      \<and> set_pixel x y t w = Some (False, w)
      \<and> swap_pixels x y x' y' w = Some (False, w) \<and> swap_pixels x' y' x y w = Some (False, w)
      \<and> try_move x y x' y' w = Some (False, w) \<and> try_move x' y' x y w = Some (False, w)
      \<and> try_set x y t w = Some (False, w)
      \<and> is_updated w x y = Some True \<and> mark_updated x y w = Some w)
   \<and> (wf_world w \<longrightarrow>
      get_material_at w x y \<noteq> None \<and> get_pixel w x y \<noteq> None \<and> set_pixel x y t w \<noteq> None
      \<and> swap_pixels x y x' y' w \<noteq> None \<and> try_move x y x' y' w \<noteq> None
      \<and> try_set x y t w \<noteq> None \<and> is_updated w x y \<noteq> None \<and> mark_updated x y w \<noteq> None)"
proof (intro conjI impI)
  assume "\<not> is_valid_position w x y"
  then show "get_pixel w x y = Some (- 1)" "get_material_at w x y = Some None"
    "set_pixel x y t w = Some (False, w)" "swap_pixels x y x' y' w = Some (False, w)"
    "swap_pixels x' y' x y w = Some (False, w)" "try_move x y x' y' w = Some (False, w)"
    "try_move x' y' x y w = Some (False, w)" "try_set x y t w = Some (False, w)"
    "is_updated w x y = Some True" "mark_updated x y w = Some w"
    by (simp_all add: get_pixel_def get_material_at_def set_pixel_def swap_pixels_def
        try_move_def try_set_def is_updated_def mark_updated_def)
next
  assume "wf_world w"
  then show "get_material_at w x y \<noteq> None" "get_pixel w x y \<noteq> None" "set_pixel x y t w \<noteq> None"
    "swap_pixels x y x' y' w \<noteq> None" "try_move x y x' y' w \<noteq> None" "try_set x y t w \<noteq> None"
    "is_updated w x y \<noteq> None" "mark_updated x y w \<noteq> None"
    by (auto simp: get_material_at_wf get_pixel_wf set_pixel_wf swap_pixels_wf try_move_wf
        try_set_wf is_updated_wf mark_updated_wf)
qed

theorem out_of_bounds_total_witness:
  "\<not> is_valid_position fire_column 7 (- 3) \<and> wf_world fire_column
   \<and> get_material_at fire_column 7 (- 3) = Some None \<and> get_pixel fire_column 7 (- 3) = Some (- 1)
   \<and> set_pixel 7 (- 3) SAND fire_column = Some (False, fire_column)
   \<and> swap_pixels 7 (- 3) 0 1 fire_column = Some (False, fire_column)
   \<and> try_move 0 1 7 (- 3) fire_column = Some (False, fire_column)
   \<and> try_set 7 (- 3) SAND fire_column = Some (False, fire_column)
   \<and> is_updated fire_column 7 (- 3) = Some True
   \<and> mark_updated 7 (- 3) fire_column = Some fire_column
   \<and> get_pixel fire_column 0 1 \<noteq> None"
proof -
  have oob: "\<not> is_valid_position fire_column 7 (- 3)"
    by (simp add: is_valid_position_def fire_column_def)
  show ?thesis
    using out_of_bounds_total [of fire_column 7 "- 3" SAND 0 1] oob wf_fire_column
      out_of_bounds_total [of fire_column 0 1 SAND 0 1]
    by simp
qed

section \<open>The falling rules\<close>

lemma get_material_at_pure:
  "wf_world w \<Longrightarrow> get_material_at w x y = Some (material_at w x y)"
  by (simp add: get_material_at_wf material_at_def)

lemma lighter_material_at [simp]: "lighter self (material_at w x y) = passable w self (x, y)"
  by (simp add: lighter_def material_at_def passable_def)

lemma same_material_at [simp]:
  "same_material self (material_at w x y) =
     (is_valid_position w x y \<and> cell (cur w) x y = material_id self)"
  by (simp add: same_material_def material_at_def)

lemma is_empty_at [simp]: "is_empty (material_at w x y) = empty_at w (x, y)"
  by (simp add: is_empty_def material_at_def empty_at_def)

lemma swap_ignore_wf:
  "wf_world (world s) \<Longrightarrow> swap_ignore x1 y1 x2 y2 s = Some (s\<lparr>world := swapped x1 y1 x2 y2 (world s)\<rparr>)"
  by (simp add: swap_ignore_def world_swap_def swap_pixels_wf swapped_def)

lemma SandMaterial_update_wf:
  assumes "wf_world (world s)"
  shows "SandMaterial_update x y s = Some (request_swap x y (sand_rule x y s) s)"
  using assms
  by (simp add: SandMaterial_update_def get_material_at_pure swap_ignore_wf sand_rule_def
      request_swap_def pick_target_def Let_def split: prod.split)

lemma WaterMaterial_update_wf:
  assumes "wf_world (world s)"
  shows "WaterMaterial_update x y s = Some (request_swap x y (fluid_rule WaterMaterial x y s) s)"
  using assms
  by (simp add: WaterMaterial_update_def get_material_at_pure swap_ignore_wf fluid_rule_def
      request_swap_def pick_target_def Let_def split: prod.split)

lemma OilMaterial_update_wf:
  assumes "wf_world (world s)"
  shows "OilMaterial_update x y s = Some (request_swap x y (fluid_rule OilMaterial x y s) s)"
  using assms
  by (simp add: OilMaterial_update_def get_material_at_pure swap_ignore_wf fluid_rule_def
      request_swap_def pick_target_def Let_def split: prod.split)



lemma randint_onto:
  assumes "a \<le> v" "v \<le> b"
  shows "fst (randint a b (\<lambda>_. nat (v - a))) = v"
  using assms by (simp add: randint_def)

lemma wf_sand_on_wall: "wf_world sand_on_wall"
  by (simp add: sand_on_wall_def wf_world_def wf_grid_def)

lemma wf_fluid_row: "wf_world (fluid_row t)"
  by (simp add: fluid_row_def wf_world_def wf_grid_def)

text \<open>
  Claim C5. On a well-formed world the Sand rule does what \<open>sand_rule\<close> says, at every
  coordinate: if the cell directly below exists and is strictly lighter than Sand it
  requests the swap with that cell and nothing else; otherwise each of the two cells
  diagonally below is passable exactly when it exists and is strictly lighter than Sand,
  one draw of the random source chooses between them when both are passable, the only
  passable one is taken when there is one, and nothing happens when there is none.
\<close>

theorem sand_rule_refined:
  assumes "wf_world (world s)"
  shows "SandMaterial_update x y s = Some (request_swap x y (sand_rule x y s) s)"
  using assms by (rule SandMaterial_update_wf)

theorem sand_rule_refined_witness:
  "wf_world (world (fresh_state sand_on_wall 0))
   \<and> SandMaterial_update 1 0 (fresh_state sand_on_wall 0) =
       Some (fresh_state
         (sand_on_wall\<lparr>nxt := [[EMPTY, EMPTY, EMPTY], [SAND, WALL, EMPTY]],
                       moved := [[False, True, False], [True, False, False]]\<rparr>) 0)
   \<and> SandMaterial_update 1 0 (fresh_state sand_on_wall 1) =
       Some (fresh_state
         (sand_on_wall\<lparr>nxt := [[EMPTY, EMPTY, EMPTY], [EMPTY, WALL, SAND]],
                       moved := [[False, True, False], [False, False, True]]\<rparr>) 1)"
proof -
  have wf: "wf_world (world (fresh_state sand_on_wall k))" for k
    by (simp add: fresh_state_def wf_sand_on_wall)
  show ?thesis
    using sand_rule_refined [OF wf [of 0], of 1 0] sand_rule_refined [OF wf [of 1], of 1 0] wf [of 0]
    by (simp add: request_swap_def sand_rule_def passable_def pick_target_def randint_def
        swapped_def writable_def is_valid_position_def cell_def put_def fresh_state_def
        sand_on_wall_def)
qed

text \<open>
  Claim C6. On a well-formed world the Water rule and the Oil rule are the same rule
  \<open>fluid_rule\<close>, taken at the material's own density and identifier: (1) swap straight
  down if the cell below is strictly lighter; (2) else swap into a strictly lighter cell
  diagonally below, one random draw choosing when both qualify; (3) else, only when the
  cell directly above does not hold the same material, swap into a strictly lighter cell
  to the left or right, one random draw choosing when both qualify; when the cell above
  holds the same material nothing is attempted.
\<close>

theorem fluid_rule_refined:
  assumes "wf_world (world s)"
  shows "WaterMaterial_update x y s = Some (request_swap x y (fluid_rule WaterMaterial x y s) s)
       \<and> OilMaterial_update x y s = Some (request_swap x y (fluid_rule OilMaterial x y s) s)"
  using assms by (simp only: WaterMaterial_update_wf OilMaterial_update_wf simp_thms)

theorem fluid_rule_refined_witness:
  "wf_world (world (fresh_state (fluid_row WATER) 0))
   \<and> WaterMaterial_update 1 0 (fresh_state (fluid_row WATER) 0) =
       Some (fresh_state
         ((fluid_row WATER)\<lparr>nxt := [[WATER, EMPTY, EMPTY]], moved := [[True, True, False]]\<rparr>) 0)
   \<and> wf_world (world (fresh_state (fluid_row OIL) 1))
   \<and> OilMaterial_update 1 0 (fresh_state (fluid_row OIL) 1) =
       Some (fresh_state
         ((fluid_row OIL)\<lparr>nxt := [[EMPTY, EMPTY, OIL]], moved := [[False, True, True]]\<rparr>) 1)"
proof -
  have wf: "wf_world (world (fresh_state (fluid_row t) k))" for t k
    by (simp add: fresh_state_def wf_fluid_row)
  show ?thesis
    using fluid_rule_refined [OF wf [of WATER 0], of 1 0] fluid_rule_refined [OF wf [of OIL 1], of 1 0]
      wf [of WATER 0] wf [of OIL 1]
    by (simp add: request_swap_def fluid_rule_def passable_def pick_target_def randint_def
        swapped_def writable_def is_valid_position_def cell_def put_def fresh_state_def
        fluid_row_def)
qed

section \<open>The Fire rule\<close>

lemma wf_world_swapped [simp]: "wf_world w \<Longrightarrow> wf_world (swapped x1 y1 x2 y2 w)"
  by (simp add: swapped_def wf_world_def wf_grid_put)

lemma wf_world_overwritten [simp]: "wf_world w \<Longrightarrow> wf_world (overwritten x y t w)"
  by (simp add: overwritten_def wf_world_def wf_grid_put)

lemma swapped_fields [simp]:
  "cur (swapped x1 y1 x2 y2 w) = cur w" "width (swapped x1 y1 x2 y2 w) = width w"
  "height (swapped x1 y1 x2 y2 w) = height w" "frame_count (swapped x1 y1 x2 y2 w) = frame_count w"
  by (simp_all add: swapped_def)

lemma overwritten_fields [simp]:
  "cur (overwritten x y t w) = cur w" "width (overwritten x y t w) = width w"
  "height (overwritten x y t w) = height w" "frame_count (overwritten x y t w) = frame_count w"
  by (simp_all add: overwritten_def)

lemma is_valid_position_swapped [simp]:
  "is_valid_position (swapped x1 y1 x2 y2 w) = is_valid_position w"
  by (simp add: is_valid_position_def fun_eq_iff)

lemma is_valid_position_overwritten [simp]:
  "is_valid_position (overwritten x y t w) = is_valid_position w"
  by (simp add: is_valid_position_def fun_eq_iff)

lemma world_try_set_wf:
  "wf_world (world s) \<Longrightarrow>
   world_try_set x y t s = Some (writable (world s) x y, s\<lparr>world := overwritten x y t (world s)\<rparr>)"
  by (simp add: world_try_set_def try_set_wf overwritten_def)

lemma world_swap_wf:
  "wf_world (world s) \<Longrightarrow>
   world_swap x1 y1 x2 y2 s =
     Some (writable (world s) x1 y1 \<and> writable (world s) x2 y2,
           s\<lparr>world := swapped x1 y1 x2 y2 (world s)\<rparr>)"
  by (simp add: world_swap_def swap_pixels_wf swapped_def)

lemma tick_lifetime_eq:
  "tick_lifetime x y s =
     (let (v, g) = lifetime_before x y s
      in Some (v - 1, s\<lparr>lifetimes := (lifetimes s)((x, y) \<mapsto> v - 1), rng := g\<rparr>))"
  by (cases "lifetimes s (x, y)")
     (simp_all add: tick_lifetime_def lifetime_before_def Let_def split: prod.split)

lemma spread_to_wf:
  "wf_world (world s) \<Longrightarrow> spread_to x y d s = Some (ignite (x + fst d, y + snd d) s)"
  by (simp add: spread_to_def ignite_def get_material_at_pure material_at_def world_try_set_wf
      Let_def split: prod.split)

lemma wf_ignite: "wf_world (world s) \<Longrightarrow> wf_world (world (ignite c s))"
  by (simp add: ignite_def Let_def split: prod.split)

lemma lifetimes_ignite [simp]: "lifetimes (ignite c s) = lifetimes s"
  by (simp add: ignite_def Let_def split: prod.split)

lemma for_each_pure:
  assumes "\<And>a s. P s \<Longrightarrow> f a s = Some (g a s)" "\<And>a s. P s \<Longrightarrow> P (g a s)" "P s"
  shows "for_each f xs s = Some (fold g xs s) \<and> P (fold g xs s)"
  using assms(3)
proof (induction xs arbitrary: s)
  case Nil
  then show ?case by simp
next
  case (Cons a xs)
  then show ?case using assms(1,2) by simp
qed

lemma fold_ignite_wf: "wf_world (world s) \<Longrightarrow> wf_world (world (fold ignite cs s))"
  by (induction cs arbitrary: s) (simp_all add: wf_ignite)

lemma lifetimes_fold_ignite [simp]: "lifetimes (fold ignite cs s) = lifetimes s"
  by (induction cs arbitrary: s) simp_all

lemma spread_fire_wf:
  assumes "wf_world (world s)"
  shows "spread_fire x y s = Some (fold ignite (neighbours x y) s)"
proof -
  have "for_each (spread_to x y) directions s
          = Some (fold (\<lambda>d. ignite (x + fst d, y + snd d)) directions s)"
    using for_each_pure [where P = "\<lambda>s. wf_world (world s)" and f = "spread_to x y"
        and g = "\<lambda>d. ignite (x + fst d, y + snd d)", OF spread_to_wf wf_ignite assms]
    by simp
  then show ?thesis
    by (simp add: spread_fire_def directions_def neighbours_def)
qed

lemma move_lifetime_relocate:
  "lt (x1, y1) \<noteq> None \<Longrightarrow> move_lifetime x1 y1 x2 y2 lt = relocate (x1, y1) (x2, y2) lt"
  by (auto simp: move_lifetime_def relocate_def)

lemma swap_and_move_lifetime_wf:
  assumes "wf_world (world s)" "lifetimes s (x, y) \<noteq> None"
  shows "swap_and_move_lifetime x y x2 y2 s = Some (request_rise x y (Some (x2, y2), rng s) s)"
  using assms
  by (simp add: swap_and_move_lifetime_def world_swap_wf request_rise_def move_lifetime_relocate
      swapped_def)

lemma rise_wf:
  assumes "wf_world (world s)" "lifetimes s (x, y) \<noteq> None"
  shows "rise x y s = Some (request_rise x y (fire_target x y s) s)"
proof -
  have above: "(case material_at (world s) x (y - 1) of None \<Rightarrow> False
                | Some m \<Rightarrow> density m > density FireMaterial) \<and> empty_at (world s) (x, y - 1)
               \<longleftrightarrow> empty_at (world s) (x, y - 1)"
    by (auto simp: material_at_def empty_at_def)
  have sm: "swap_and_move_lifetime x y x2 y2 (s\<lparr>rng := g\<rparr>)
              = Some (request_rise x y (Some (x2, y2), g) s)" for x2 y2 g
    using swap_and_move_lifetime_wf [of "s\<lparr>rng := g\<rparr>" x y x2 y2] assms
    by (simp add: request_rise_def)
  have sm0: "swap_and_move_lifetime x y x2 y2 s
              = Some (request_rise x y (Some (x2, y2), rng s) s)" for x2 y2
    using swap_and_move_lifetime_wf [OF assms] .
  have none: "request_rise x y (None, rng s) s = s"
    by (simp add: request_rise_def)
  show ?thesis
    using assms(1)
    by (simp add: rise_def get_material_at_pure above sm sm0 none fire_target_def pick_target_def
        Let_def split: prod.split)
qed

lemma FireMaterial_update_wf:
  assumes "wf_world (world s)"
  shows "FireMaterial_update x y s = Some (fire_rule x y s)"
proof -
  obtain v g where vg: "lifetime_before x y s = (v, g)" by (cases "lifetime_before x y s")
  let ?s1 = "s\<lparr>lifetimes := (lifetimes s)((x, y) \<mapsto> v - 1), rng := g\<rparr>"
  have tick: "tick_lifetime x y s = Some (v - 1, ?s1)"
    by (simp add: tick_lifetime_eq vg)
  show ?thesis
  proof (cases "v - 1 \<le> 0")
    case True
    then show ?thesis
      using assms by (simp add: FireMaterial_update_def tick fire_rule_def vg world_try_set_wf)
  next
    case False
    let ?s2 = "fold ignite (neighbours x y) ?s1"
    have wf2: "wf_world (world ?s2)" using assms by (intro fold_ignite_wf) simp
    have lt2: "lifetimes ?s2 (x, y) \<noteq> None" by simp
    have "FireMaterial_update x y s = rise x y ?s2"
      using False assms by (simp add: FireMaterial_update_def tick spread_fire_wf)
    also have "\<dots> = Some (request_rise x y (fire_target x y ?s2) ?s2)"
      using rise_wf [OF wf2 lt2] .
    finally show ?thesis using False by (simp add: fire_rule_def vg Let_def)
  qed
qed


lemma wf_fire_oil_row: "wf_world fire_oil_row"
  by (simp add: fire_oil_row_def wf_world_def wf_grid_def)

text \<open>
  A draw of \<^verbatim>\<open>random()\<close> lies in \<open>[0, 1)\<close>. The source compares it with the float
  \<open>0.3\<close>, which is \<open>5404319552844595 / 2\<^sup>5\<^sup>4\<close>; on the multiples of \<open>2\<^sup>-\<^sup>5\<^sup>3\<close> that
  comparison and the comparison with \<open>3 / 10\<close> agree.
\<close>

lemma random_unit_range: "0 \<le> fst (random_unit g) \<and> fst (random_unit g) < 1"
  by (simp add: random_unit_def)

lemma threshold_as_double:
  "((of_nat k :: rat) / 2 ^ 53 < 3 / 10) = ((of_nat k :: rat) / 2 ^ 53 < 5404319552844595 / 2 ^ 54)"
proof -
  have a: "((of_nat k :: rat) / 2 ^ 53 < 3 / 10) = (10 * k < 27021597764222976)"
  proof -
    have "((of_nat k :: rat) / 2 ^ 53 < 3 / 10) = ((of_nat (10 * k) :: rat) < of_nat 27021597764222976)"
      by (simp add: field_simps)
    then show ?thesis by (simp only: of_nat_less_iff)
  qed
  have b: "((of_nat k :: rat) / 2 ^ 53 < 5404319552844595 / 2 ^ 54) = (2 * k < 5404319552844595)"
  proof -
    have "((of_nat k :: rat) / 2 ^ 53 < 5404319552844595 / 2 ^ 54)
            = ((of_nat (2 * k) :: rat) < of_nat 5404319552844595)"
      by (simp add: field_simps)
    then show ?thesis by (simp only: of_nat_less_iff)
  qed
  show ?thesis unfolding a b by arith
qed

text \<open>
  Counting the raw draws: exactly one residue modulo \<open>b - a + 1\<close> gives each value of
  \<^verbatim>\<open>randint(a, b)\<close>, and of the \<open>2\<^sup>5\<^sup>3\<close> values of \<^verbatim>\<open>random()\<close> exactly
  \<open>2702159776422298\<close> are below \<open>0.3\<close>, a share of \<open>0.3\<close> up to \<open>2\<^sup>-\<^sup>5\<^sup>3\<close>. A source whose raw
  draws are equally likely therefore makes \<^verbatim>\<open>randint\<close> uniform and ignites with
  probability \<open>0.3\<close>.
\<close>

lemma randint_draws:
  assumes "a \<le> v" "v \<le> b"
  shows "{n. n < nat (b - a + 1) \<and> fst (randint a b (\<lambda>_. n)) = v} = {nat (v - a)}"
  using assms by (auto simp: randint_def)

lemma ignition_threshold:
  "((of_nat k :: rat) / 2 ^ 53 < 3 / 10) = (k \<le> 2702159776422297)"
proof -
  have "((of_nat k :: rat) / 2 ^ 53 < 3 / 10) = ((of_nat (10 * k) :: rat) < of_nat 27021597764222976)"
    by (simp add: field_simps)
  then have "((of_nat k :: rat) / 2 ^ 53 < 3 / 10) = (10 * k < 27021597764222976)"
    by (simp only: of_nat_less_iff)
  then show ?thesis by arith
qed

lemma ignition_draws:
  "card {k :: nat. k < 2 ^ 53 \<and> fst (random_unit (\<lambda>_. k)) < 3 / 10} = 2702159776422298"
proof -
  have "{k :: nat. k < 2 ^ 53 \<and> fst (random_unit (\<lambda>_. k)) < 3 / 10} = {..2702159776422297}"
    by (auto simp: random_unit_def ignition_threshold)
  then show ?thesis by simp
qed






lemmas fire_eval =
  fire_rule_def lifetime_before_def randint_def random_unit_def neighbours_def ignite_def
  fire_target_def empty_at_def pick_target_def request_rise_def relocate_def swapped_def
  overwritten_def writable_def is_valid_position_def cell_def put_def


lemma fire_spreads_example:
  "map_option (\<lambda>s. (world s, lifetimes s (0, 0)))
        (FireMaterial_update 0 0 (fresh_state fire_oil_row 0)) =
       Some (fire_oil_row\<lparr>nxt := [[FIRE, FIRE]], moved := [[False, True]]\<rparr>, Some 14)"
proof -
  have wf: "wf_world (world (fresh_state fire_oil_row 0))"
    by (simp add: fresh_state_def wf_fire_oil_row)
  show ?thesis
    using FireMaterial_update_wf [OF wf, of 0 0]
    by (simp add: fire_eval fresh_state_def fire_oil_row_def)
qed

lemma fire_expires_example:
  "map_option (\<lambda>s. (world s, lifetimes s (0, 1)))
        (FireMaterial_update 0 1 ((fresh_state fire_column 0)\<lparr>lifetimes := [(0, 1) \<mapsto> 1]\<rparr>)) =
       Some (fire_column\<lparr>nxt := [[EMPTY], [EMPTY]], moved := [[False], [True]]\<rparr>, None)"
proof -
  have wf: "wf_world (world ((fresh_state fire_column 0)\<lparr>lifetimes := [(0, 1) \<mapsto> 1]\<rparr>))"
    by (simp add: fresh_state_def wf_fire_column)
  show ?thesis
    using FireMaterial_update_wf [OF wf, of 0 1]
    by (simp add: fire_eval fresh_state_def fire_column_def)
qed

section \<open>Construction and clearing\<close>

lemma create_empty_grid_replicate:
  "create_empty_grid w h = replicate (nat h) (replicate (nat w) EMPTY)"
  by (simp add: create_empty_grid_def py_range_def map_replicate_const)

lemma create_flag_grid_replicate:
  "create_flag_grid w h = replicate (nat h) (replicate (nat w) False)"
  by (simp add: create_flag_grid_def py_range_def map_replicate_const)

lemma wf_grid_replicate: "wf_grid w h (replicate (nat h) (replicate (nat w) v))"
  by (simp add: wf_grid_def)

lemma cell_replicate:
  "0 \<le> x \<Longrightarrow> x < w \<Longrightarrow> 0 \<le> y \<Longrightarrow> y < h \<Longrightarrow> cell (replicate (nat h) (replicate (nat w) v)) x y = v"
  by (simp add: cell_def)

lemma wf_world_clear: "wf_world (clear w)"
  by (simp add: wf_world_def clear_def create_empty_grid_replicate create_flag_grid_replicate
      wf_grid_replicate)

lemma wf_World_init: "wf_world (World_init w h)"
  by (simp add: wf_world_def World_init_def create_empty_grid_replicate create_flag_grid_replicate
      wf_grid_replicate)

text \<open>
  Claim C7 says that after \<open>clear()\<close> no fire-lifetime entry remains. One step from a
  fresh state with one Fire cell records a lifetime under \<open>(0, 0)\<close>, and the entry is
  still there after \<open>clear()\<close>.
\<close>

theorem clear_counterexample:
  "map_option (\<lambda>s. lifetimes (call_clear s) (0, 0)) (update (fresh_state fire_column 3)) = Some (Some 17)"
  by code_simp

text \<open>
  Claim C7, amended. After \<open>clear()\<close> every cell of the current buffer and of the next
  buffer is Empty and every flag of the resolved mask is false; the world is well formed
  and keeps its dimensions and its frame counter. The dictionary of fire lifetimes is an
  attribute of the class \<^verbatim>\<open>FireMaterial\<close>, not of the world: \<open>clear()\<close> leaves it as it
  was.
\<close>

theorem clear_resets_grids_only:
  "(is_valid_position (world s) x y \<longrightarrow>
       cell (cur (world (call_clear s))) x y = EMPTY
     \<and> cell (nxt (world (call_clear s))) x y = EMPTY
     \<and> \<not> cell (moved (world (call_clear s))) x y)
   \<and> wf_world (world (call_clear s))
   \<and> width (world (call_clear s)) = width (world s)
   \<and> height (world (call_clear s)) = height (world s)
   \<and> frame_count (world (call_clear s)) = frame_count (world s)
   \<and> lifetimes (call_clear s) = lifetimes s"
  using wf_world_clear [of "world s"]
  by (simp add: call_clear_def clear_def create_empty_grid_replicate create_flag_grid_replicate
      is_valid_position_def cell_replicate)

theorem clear_resets_grids_only_witness:
  "is_valid_position (world ((fresh_state fire_column 0)\<lparr>lifetimes := [(0, 1) \<mapsto> 5]\<rparr>)) 0 1
   \<and> cell (cur (world (call_clear ((fresh_state fire_column 0)\<lparr>lifetimes := [(0, 1) \<mapsto> 5]\<rparr>)))) 0 1 = EMPTY
   \<and> lifetimes (call_clear ((fresh_state fire_column 0)\<lparr>lifetimes := [(0, 1) \<mapsto> 5]\<rparr>)) (0, 1) = Some 5"
proof -
  have v: "is_valid_position (world ((fresh_state fire_column 0)\<lparr>lifetimes := [(0, 1) \<mapsto> 5]\<rparr>)) 0 1"
    by (simp add: is_valid_position_def fresh_state_def fire_column_def)
  show ?thesis
    using clear_resets_grids_only [of "(fresh_state fire_column 0)\<lparr>lifetimes := [(0, 1) \<mapsto> 5]\<rparr>" 0 1] v
    by simp
qed

section \<open>Densities of displaced materials\<close>

lemma pick_target_cases:
  "fst (pick_target l r a b g) = Some c \<Longrightarrow> (l \<and> c = a) \<or> (r \<and> c = b)"
  by (auto simp: pick_target_def Let_def split: prod.splits if_splits)

lemma sand_rule_passable:
  "fst (sand_rule x y s) = Some c \<Longrightarrow> passable (world s) SandMaterial c"
  by (auto simp: sand_rule_def split: if_splits dest!: pick_target_cases)

lemma fluid_rule_passable:
  "fst (fluid_rule self x y s) = Some c \<Longrightarrow> passable (world s) self c"
  by (auto simp: fluid_rule_def split: if_splits dest!: pick_target_cases)

lemma fire_target_empty:
  "fst (fire_target x y s) = Some c \<Longrightarrow> empty_at (world s) c"
  by (auto simp: fire_target_def split: if_splits dest!: pick_target_cases)

lemma swapped_cases:
  assumes "wf_world w"
  shows "swapped x y a b w = w \<or> swap_pixels x y a b w = Some (True, swapped x y a b w)"
  using assms by (simp add: swap_pixels_wf swapped_def)

lemma world_request_swap:
  "world (request_swap x y d s) =
     (case fst d of None \<Rightarrow> world s | Some c \<Rightarrow> swapped x y (fst c) (snd c) (world s))"
  by (simp add: request_swap_def split: option.split)

lemma world_request_rise:
  "world (request_rise x y d s) =
     (case fst d of None \<Rightarrow> world s | Some c \<Rightarrow> swapped x y (fst c) (snd c) (world s))"
  by (simp add: request_rise_def swapped_def split: option.split)

lemma rise_world:
  assumes "wf_world (world s)"
  shows "\<exists>s'. rise x y s = Some s' \<and> world s' = world (request_rise x y (fire_target x y s) s)"
proof -
  define R where "R = (\<lambda>d :: (int \<times> int) option \<times> rng.
     case fst d of
       None \<Rightarrow> s\<lparr>rng := snd d\<rparr>
     | Some c \<Rightarrow>
         if writable (world s) x y \<and> writable (world s) (fst c) (snd c)
         then s\<lparr>world := swapped x y (fst c) (snd c) (world s),
                lifetimes := move_lifetime x y (fst c) (snd c) (lifetimes s), rng := snd d\<rparr>
         else s\<lparr>rng := snd d\<rparr>)"
  have above: "(case material_at (world s) x (y - 1) of None \<Rightarrow> False
                | Some m \<Rightarrow> density m > density FireMaterial) \<and> empty_at (world s) (x, y - 1)
               \<longleftrightarrow> empty_at (world s) (x, y - 1)"
    by (auto simp: material_at_def empty_at_def)
  have sm: "swap_and_move_lifetime x y x2 y2 (s\<lparr>rng := g\<rparr>) = Some (R (Some (x2, y2), g))"
    for x2 y2 g
    using assms by (simp add: swap_and_move_lifetime_def world_swap_wf R_def swapped_def)
  have sm0: "swap_and_move_lifetime x y x2 y2 s = Some (R (Some (x2, y2), rng s))" for x2 y2
    using sm [of x2 y2 "rng s"] by simp
  have none: "R (None, rng s) = s"
    by (simp add: R_def)
  have "rise x y s = Some (R (fire_target x y s))"
    using assms(1)
    by (simp add: rise_def get_material_at_pure above sm sm0 none fire_target_def pick_target_def
        Let_def split: prod.split)
  moreover have "world (R d) = world (request_rise x y d s)" for d
    by (simp add: R_def request_rise_def split: option.split)
  ultimately show ?thesis by simp
qed

text \<open>
  Claim C8, amended. A rule changes the world only by one successful swap of its own
  cell with a neighbour. For the Sand, Water and Oil rules the neighbour displaced by
  such a swap has strictly lower density than the moving material. The rising part of
  the Fire rule swaps only with an Empty cell, whose density \<open>0\<close> is greater than the
  density \<open>-10\<close> of Fire. No rule calls \<open>try_move\<close>.
\<close>

theorem displaced_density:
  assumes "wf_world (world s)"
  shows "(SandMaterial_update x y s = Some s' \<longrightarrow>
            world s' = world s
          \<or> (\<exists>c. swap_pixels x y (fst c) (snd c) (world s) = Some (True, world s')
                \<and> is_valid_position (world s) (fst c) (snd c)
                \<and> density (material_of (cell (cur (world s)) (fst c) (snd c))) < density SandMaterial))
       \<and> (WaterMaterial_update x y s = Some s' \<longrightarrow>
            world s' = world s
          \<or> (\<exists>c. swap_pixels x y (fst c) (snd c) (world s) = Some (True, world s')
                \<and> is_valid_position (world s) (fst c) (snd c)
                \<and> density (material_of (cell (cur (world s)) (fst c) (snd c))) < density WaterMaterial))
       \<and> (OilMaterial_update x y s = Some s' \<longrightarrow>
            world s' = world s
          \<or> (\<exists>c. swap_pixels x y (fst c) (snd c) (world s) = Some (True, world s')
                \<and> is_valid_position (world s) (fst c) (snd c)
                \<and> density (material_of (cell (cur (world s)) (fst c) (snd c))) < density OilMaterial))
       \<and> (rise x y s = Some s' \<longrightarrow>
            world s' = world s
          \<or> (\<exists>c. swap_pixels x y (fst c) (snd c) (world s) = Some (True, world s')
                \<and> is_valid_position (world s) (fst c) (snd c)
                \<and> cell (cur (world s)) (fst c) (snd c) = EMPTY
                \<and> density FireMaterial < density (material_of EMPTY)))"
proof -
  have falling: "world (request_swap x y d s) = world s
      \<or> (\<exists>c. swap_pixels x y (fst c) (snd c) (world s) = Some (True, world (request_swap x y d s))
            \<and> is_valid_position (world s) (fst c) (snd c)
            \<and> density (material_of (cell (cur (world s)) (fst c) (snd c))) < density self)"
    if "\<And>c. fst d = Some c \<Longrightarrow> passable (world s) self c" for d self
  proof (cases "fst d")
    case None
    then show ?thesis by (simp add: world_request_swap)
  next
    case (Some c)
    then show ?thesis
      using swapped_cases [OF assms, of x y "fst c" "snd c"] that [OF Some]
      by (auto simp: world_request_swap passable_def)
  qed
  have rising: "world (request_rise x y d s) = world s
      \<or> (\<exists>c. swap_pixels x y (fst c) (snd c) (world s) = Some (True, world (request_rise x y d s))
            \<and> is_valid_position (world s) (fst c) (snd c)
            \<and> cell (cur (world s)) (fst c) (snd c) = EMPTY
            \<and> density FireMaterial < density (material_of EMPTY))"
    if "\<And>c. fst d = Some c \<Longrightarrow> empty_at (world s) c" for d
  proof (cases "fst d")
    case None
    then show ?thesis by (simp add: world_request_rise)
  next
    case (Some c)
    then show ?thesis
      using swapped_cases [OF assms, of x y "fst c" "snd c"] that [OF Some]
      by (auto simp: world_request_rise empty_at_def)
  qed
  show ?thesis
  proof (intro conjI impI)
    assume "SandMaterial_update x y s = Some s'"
    then have "s' = request_swap x y (sand_rule x y s) s"
      using SandMaterial_update_wf [OF assms, of x y] by simp
    then show "world s' = world s
          \<or> (\<exists>c. swap_pixels x y (fst c) (snd c) (world s) = Some (True, world s')
                \<and> is_valid_position (world s) (fst c) (snd c)
                \<and> density (material_of (cell (cur (world s)) (fst c) (snd c))) < density SandMaterial)"
      using falling [of "sand_rule x y s" SandMaterial] sand_rule_passable by simp
  next
    assume "WaterMaterial_update x y s = Some s'"
    then have "s' = request_swap x y (fluid_rule WaterMaterial x y s) s"
      using WaterMaterial_update_wf [OF assms, of x y] by simp
    then show "world s' = world s
          \<or> (\<exists>c. swap_pixels x y (fst c) (snd c) (world s) = Some (True, world s')
                \<and> is_valid_position (world s) (fst c) (snd c)
                \<and> density (material_of (cell (cur (world s)) (fst c) (snd c))) < density WaterMaterial)"
      using falling [of "fluid_rule WaterMaterial x y s" WaterMaterial] fluid_rule_passable by simp
  next
    assume "OilMaterial_update x y s = Some s'"
    then have "s' = request_swap x y (fluid_rule OilMaterial x y s) s"
      using OilMaterial_update_wf [OF assms, of x y] by simp
    then show "world s' = world s
          \<or> (\<exists>c. swap_pixels x y (fst c) (snd c) (world s) = Some (True, world s')
                \<and> is_valid_position (world s) (fst c) (snd c)
                \<and> density (material_of (cell (cur (world s)) (fst c) (snd c))) < density OilMaterial)"
      using falling [of "fluid_rule OilMaterial x y s" OilMaterial] fluid_rule_passable by simp
  next
    assume "rise x y s = Some s'"
    then have "world s' = world (request_rise x y (fire_target x y s) s)"
      using rise_world [OF assms, of x y] by auto
    then show "world s' = world s
          \<or> (\<exists>c. swap_pixels x y (fst c) (snd c) (world s) = Some (True, world s')
                \<and> is_valid_position (world s) (fst c) (snd c)
                \<and> cell (cur (world s)) (fst c) (snd c) = EMPTY
                \<and> density FireMaterial < density (material_of EMPTY))"
      using rising [of "fire_target x y s"] fire_target_empty by simp
  qed
qed


text \<open>
  Claim C8 says that the material displaced by a successful swap is always strictly
  lighter than the moving one. The Fire in the bottom cell of a column swaps
  successfully with the Empty cell above it, which is not lighter than Fire.
\<close>

theorem displaced_density_counterexample:
  "map_option world (FireMaterial_update 0 1 (fresh_state fire_column 3))
     = map_option snd (swap_pixels 0 1 0 0 fire_column)
   \<and> map_option fst (swap_pixels 0 1 0 0 fire_column) = Some True
   \<and> cell (cur fire_column) 0 1 = FIRE
   \<and> \<not> density (material_of (cell (cur fire_column) 0 0)) < density FireMaterial"
  by code_simp

theorem displaced_density_witness:
  "wf_world sand_on_wall \<and> wf_world (fluid_row WATER) \<and> wf_world (fluid_row OIL)
   \<and> wf_world fire_column
   \<and> (\<exists>s'. SandMaterial_update 1 0 (fresh_state sand_on_wall 0) = Some s'
        \<and> world s' \<noteq> sand_on_wall
        \<and> (\<exists>c. swap_pixels 1 0 (fst c) (snd c) sand_on_wall = Some (True, world s')
              \<and> density (material_of (cell (cur sand_on_wall) (fst c) (snd c))) < density SandMaterial))
   \<and> (\<exists>s'. WaterMaterial_update 1 0 (fresh_state (fluid_row WATER) 0) = Some s'
        \<and> world s' \<noteq> fluid_row WATER
        \<and> (\<exists>c. swap_pixels 1 0 (fst c) (snd c) (fluid_row WATER) = Some (True, world s')
              \<and> density (material_of (cell (cur (fluid_row WATER)) (fst c) (snd c))) < density WaterMaterial))
   \<and> (\<exists>s'. OilMaterial_update 1 0 (fresh_state (fluid_row OIL) 0) = Some s'
        \<and> world s' \<noteq> fluid_row OIL
        \<and> (\<exists>c. swap_pixels 1 0 (fst c) (snd c) (fluid_row OIL) = Some (True, world s')
              \<and> density (material_of (cell (cur (fluid_row OIL)) (fst c) (snd c))) < density OilMaterial))
   \<and> (\<exists>s'. rise 0 1 (fresh_state fire_column 0) = Some s'
        \<and> world s' \<noteq> fire_column
        \<and> (\<exists>c. swap_pixels 0 1 (fst c) (snd c) fire_column = Some (True, world s')
              \<and> cell (cur fire_column) (fst c) (snd c) = EMPTY))"
proof -
  have w [simp]: "world (fresh_state v k) = v" for v k by (simp add: fresh_state_def)
  have e1: "map_option (\<lambda>s. world s = sand_on_wall) (SandMaterial_update 1 0 (fresh_state sand_on_wall 0)) = Some False"
    by code_simp
  have e2: "map_option (\<lambda>s. world s = fluid_row WATER) (WaterMaterial_update 1 0 (fresh_state (fluid_row WATER) 0)) = Some False"
    by code_simp
  have e3: "map_option (\<lambda>s. world s = fluid_row OIL) (OilMaterial_update 1 0 (fresh_state (fluid_row OIL) 0)) = Some False"
    by code_simp
  have e4: "map_option (\<lambda>s. world s = fire_column) (rise 0 1 (fresh_state fire_column 0)) = Some False"
    by code_simp
  obtain s1 where s1: "SandMaterial_update 1 0 (fresh_state sand_on_wall 0) = Some s1"
    "world s1 \<noteq> sand_on_wall" using e1 by auto
  obtain s2 where s2: "WaterMaterial_update 1 0 (fresh_state (fluid_row WATER) 0) = Some s2"
    "world s2 \<noteq> fluid_row WATER" using e2 by auto
  obtain s3 where s3: "OilMaterial_update 1 0 (fresh_state (fluid_row OIL) 0) = Some s3"
    "world s3 \<noteq> fluid_row OIL" using e3 by auto
  obtain s4 where s4: "rise 0 1 (fresh_state fire_column 0) = Some s4"
    "world s4 \<noteq> fire_column" using e4 by auto
  have wf1: "wf_world (world (fresh_state sand_on_wall 0))" by (simp add: wf_sand_on_wall)
  have wf2: "wf_world (world (fresh_state (fluid_row t) 0))" for t by (simp add: wf_fluid_row)
  have wf4: "wf_world (world (fresh_state fire_column 0))" by (simp add: wf_fire_column)
  have c1: "\<exists>c. swap_pixels 1 0 (fst c) (snd c) sand_on_wall = Some (True, world s1)
              \<and> density (material_of (cell (cur sand_on_wall) (fst c) (snd c))) < density SandMaterial"
    using displaced_density [OF wf1, of 1 0 s1] s1 by auto
  have c2: "\<exists>c. swap_pixels 1 0 (fst c) (snd c) (fluid_row WATER) = Some (True, world s2)
              \<and> density (material_of (cell (cur (fluid_row WATER)) (fst c) (snd c))) < density WaterMaterial"
    using displaced_density [OF wf2 [of WATER], of 1 0 s2] s2 by auto
  have c3: "\<exists>c. swap_pixels 1 0 (fst c) (snd c) (fluid_row OIL) = Some (True, world s3)
              \<and> density (material_of (cell (cur (fluid_row OIL)) (fst c) (snd c))) < density OilMaterial"
    using displaced_density [OF wf2 [of OIL], of 1 0 s3] s3 by auto
  have c4: "\<exists>c. swap_pixels 0 1 (fst c) (snd c) fire_column = Some (True, world s4)
              \<and> cell (cur fire_column) (fst c) (snd c) = EMPTY"
    using displaced_density [OF wf4, of 0 1 s4] s4 by auto
  show ?thesis
    using s1 s2 s3 s4 c1 c2 c3 c4 wf_sand_on_wall wf_fluid_row wf_fire_column by blast
qed

section \<open>Sequences of primitive calls\<close>

lemma overwritten_cases:
  assumes "wf_world w"
  shows "overwritten x y t w = w \<or> try_set x y t w = Some (True, overwritten x y t w)"
  using assms by (simp add: try_set_wf overwritten_def)

lemma later_trans: "later b c \<Longrightarrow> later a b \<Longrightarrow> later a c"
  by (induction rule: later.induct) (auto intro: later.intros)

lemma run_calls_append:
  "run_calls (ps @ qs) w = (case run_calls ps w of None \<Rightarrow> None | Some w' \<Rightarrow> run_calls qs w')"
  by (induction ps arbitrary: w) (simp_all split: bind_split)

lemma run_calls_later: "run_calls ps w = Some w' \<Longrightarrow> later w w'"
proof (induction ps arbitrary: w)
  case Nil
  then show ?case by (simp add: later.now)
next
  case (Cons p ps)
  then obtain ok w1 where p: "run_primitive p w = Some (ok, w1)" and r: "run_calls ps w1 = Some w'"
    by (auto split: bind_splits)
  have "later w w1" using later.call [OF later.now p] .
  then show ?case using Cons.IH [OF r] by (rule later_trans [rotated])
qed

lemma later_run_calls: "later w w' \<Longrightarrow> \<exists>ps. run_calls ps w = Some w'"
proof (induction rule: later.induct)
  case (now w)
  have "run_calls [] w = Some w" by simp
  then show ?case by blast
next
  case (call w w1 p ok w2)
  then obtain ps where "run_calls ps w = Some w1" by blast
  then have "run_calls (ps @ [p]) w = Some w2"
    using call.hyps(2) by (simp add: run_calls_append)
  then show ?case by blast
qed

lemma later_swapped: "wf_world w \<Longrightarrow> later w (swapped x y a b w)"
  using swapped_cases [of w x y a b] later.call [OF later.now, of "Swap x y a b" w True]
  by (auto intro: later.now)

lemma later_overwritten: "wf_world w \<Longrightarrow> later w (overwritten x y t w)"
  using overwritten_cases [of w x y t] later.call [OF later.now, of "Overwrite x y t" w True]
  by (auto intro: later.now)

lemma run_primitive_wf:
  assumes "wf_world w" "run_primitive p w = Some (ok, w')"
  shows "wf_world w' \<and> width w' = width w \<and> height w' = height w \<and> cur w' = cur w
       \<and> frame_count w' = frame_count w"
proof (cases p)
  case (Swap x1 y1 x2 y2)
  then show ?thesis
    using assms by (auto simp: swap_pixels_wf wf_world_def wf_grid_put split: if_splits)
next
  case (Move x1 y1 x2 y2)
  then show ?thesis
    using assms by (auto simp: try_move_wf wf_world_def wf_grid_put split: if_splits)
next
  case (Overwrite x y t)
  then show ?thesis
    using assms by (auto simp: try_set_wf wf_world_def wf_grid_put split: if_splits)
qed

lemma later_frame:
  assumes "later w w'" "wf_world w"
  shows "wf_world w' \<and> width w' = width w \<and> height w' = height w \<and> cur w' = cur w
       \<and> frame_count w' = frame_count w"
  using assms
proof (induction rule: later.induct)
  case (now w)
  then show ?case by simp
next
  case (call w w1 p ok w2)
  then show ?case using run_primitive_wf [of w1 p ok w2] by simp
qed


lemma run_primitive_blocked:
  assumes "wf_world w" "cell (moved w) x y" "involves p x y"
  shows "run_primitive p w = Some (False, w)"
  using assms by (cases p) (auto simp: swap_pixels_wf try_move_wf try_set_wf writable_def)

lemma cell_put_other:
  assumes "wf_grid (width w) (height w) g" "is_valid_position w x y" "is_valid_position w x' y'"
    "(x', y') \<noteq> (x, y)"
  shows "cell (put g x y v) x' y' = cell g x' y'"
  using assms cell_put [of "width w" "height w" g x y x' y' v]
  by (auto simp: is_valid_position_def)

lemma cell_put_same:
  assumes "wf_grid (width w) (height w) g" "is_valid_position w x y"
  shows "cell (put g x y v) x y = v"
  using assms cell_put [of "width w" "height w" g x y x y v]
  by (auto simp: is_valid_position_def)

lemma cell_put2_other:
  assumes "wf_grid (width w) (height w) g" "is_valid_position w x1 y1" "is_valid_position w x2 y2"
    "is_valid_position w x y" "(x, y) \<noteq> (x1, y1)" "(x, y) \<noteq> (x2, y2)"
  shows "cell (put (put g x1 y1 u) x2 y2 v) x y = cell g x y"
proof -
  have "cell (put (put g x1 y1 u) x2 y2 v) x y = cell (put g x1 y1 u) x y"
    using assms by (intro cell_put_other [where w = w] wf_grid_put) auto
  also have "\<dots> = cell g x y"
    using assms by (intro cell_put_other [where w = w]) auto
  finally show ?thesis .
qed

lemma run_primitive_keeps:
  assumes "wf_world w" "is_valid_position w x y" "cell (moved w) x y"
    "run_primitive p w = Some (ok, w')"
  shows "cell (moved w') x y \<and> cell (nxt w') x y = cell (nxt w) x y"
proof (cases ok)
  case False
  have "w' = w"
    using assms(1,4) False
    by (cases p) (auto simp: swap_pixels_wf try_move_wf try_set_wf split: if_splits)
  then show ?thesis using assms by simp
next
  case True
  note wfs = wf_worldD [OF assms(1)]
  show ?thesis
  proof (cases p)
    case (Swap x1 y1 x2 y2)
    then have wr: "writable w x1 y1" "writable w x2 y2"
      and w': "w' = w\<lparr>nxt := put (put (nxt w) x1 y1 (cell (cur w) x2 y2)) x2 y2 (cell (cur w) x1 y1),
                       moved := put (put (moved w) x1 y1 True) x2 y2 True\<rparr>"
      using assms(1,4) True by (auto simp: swap_pixels_wf split: if_splits)
    have ne: "(x, y) \<noteq> (x1, y1)" "(x, y) \<noteq> (x2, y2)"
      using wr assms(3) by (auto simp: writable_def)
    show ?thesis
      using wr ne assms(2,3) wfs
      by (simp add: w' writable_def cell_put2_other [where w = w])
  next
    case (Move x1 y1 x2 y2)
    then have wr: "writable w x1 y1" "writable w x2 y2"
      and w': "w' = w\<lparr>nxt := put (put (nxt w) x2 y2 (cell (cur w) x1 y1)) x1 y1 EMPTY,
                       moved := put (put (moved w) x1 y1 True) x2 y2 True\<rparr>"
      using assms(1,4) True by (auto simp: try_move_wf split: if_splits)
    have ne: "(x, y) \<noteq> (x1, y1)" "(x, y) \<noteq> (x2, y2)"
      using wr assms(3) by (auto simp: writable_def)
    show ?thesis
      using wr ne assms(2,3) wfs
      by (simp add: w' writable_def cell_put2_other [where w = w])
  next
    case (Overwrite x1 y1 t)
    then have wr: "writable w x1 y1"
      and w': "w' = w\<lparr>nxt := put (nxt w) x1 y1 t, moved := put (moved w) x1 y1 True\<rparr>"
      using assms(1,4) True by (auto simp: try_set_wf split: if_splits)
    have ne: "(x, y) \<noteq> (x1, y1)"
      using wr assms(3) by (auto simp: writable_def)
    show ?thesis
      using wr ne assms(2,3) wfs
      by (simp add: w' writable_def cell_put_other [where w = w])
  qed
qed

lemma run_primitive_marks:
  assumes "wf_world w" "is_valid_position w x y" "involves p x y"
    "run_primitive p w = Some (True, w')"
  shows "cell (moved w') x y"
proof -
  note wfs = wf_worldD [OF assms(1)]
  show ?thesis
  proof (cases p)
    case (Swap x1 y1 x2 y2)
    then have wr: "writable w x1 y1" "writable w x2 y2"
      and w': "moved w' = put (put (moved w) x1 y1 True) x2 y2 True"
      using assms(1,4) by (auto simp: swap_pixels_wf split: if_splits)
    have v: "is_valid_position w x1 y1" "is_valid_position w x2 y2"
      using wr by (simp_all add: writable_def)
    have "cell (put (put (moved w) x1 y1 True) x2 y2 True) x y"
    proof (cases "(x, y) = (x2, y2)")
      case True
      then show ?thesis
        using cell_put_same [where w = w, OF wf_grid_put [OF wfs(3)] v(2)] by simp
    next
      case False
      then have "(x, y) = (x1, y1)" using assms(3) Swap by auto
      then show ?thesis
        using False cell_put_other [where w = w, OF wf_grid_put [OF wfs(3)] v(2) v(1), of x1 y1 True True]
          cell_put_same [where w = w, OF wfs(3) v(1), of True]
        by simp
    qed
    then show ?thesis by (simp add: w')
  next
    case (Move x1 y1 x2 y2)
    then have wr: "writable w x1 y1" "writable w x2 y2"
      and w': "moved w' = put (put (moved w) x1 y1 True) x2 y2 True"
      using assms(1,4) by (auto simp: try_move_wf split: if_splits)
    have v: "is_valid_position w x1 y1" "is_valid_position w x2 y2"
      using wr by (simp_all add: writable_def)
    have "cell (put (put (moved w) x1 y1 True) x2 y2 True) x y"
    proof (cases "(x, y) = (x2, y2)")
      case True
      then show ?thesis
        using cell_put_same [where w = w, OF wf_grid_put [OF wfs(3)] v(2)] by simp
    next
      case False
      then have "(x, y) = (x1, y1)" using assms(3) Move by auto
      then show ?thesis
        using False cell_put_other [where w = w, OF wf_grid_put [OF wfs(3)] v(2) v(1), of x1 y1 True True]
          cell_put_same [where w = w, OF wfs(3) v(1), of True]
        by simp
    qed
    then show ?thesis by (simp add: w')
  next
    case (Overwrite x1 y1 t)
    then have wr: "writable w x1 y1" and w': "moved w' = put (moved w) x1 y1 True"
      using assms(1,4) by (auto simp: try_set_wf split: if_splits)
    show ?thesis
      using assms(3) Overwrite wr cell_put_same [where w = w, OF wfs(3), of x1 y1 True]
      by (simp add: w' writable_def)
  qed
qed

lemma later_keeps:
  assumes "later w w'" "wf_world w" "is_valid_position w x y" "cell (moved w) x y"
  shows "cell (moved w') x y \<and> cell (nxt w') x y = cell (nxt w) x y"
  using assms
proof (induction rule: later.induct)
  case (now w)
  then show ?case by simp
next
  case (call w w1 p ok w2)
  have f: "wf_world w1" "is_valid_position w1 x y"
    using later_frame [OF call.hyps(1) call.prems(1)] call.prems(2)
    by (simp_all add: is_valid_position_def)
  show ?case
    using call.IH [OF call.prems] run_primitive_keeps [OF f _ call.hyps(2)] by simp
qed

section \<open>Rules, visits and passes\<close>

lemma later_ignite: "wf_world (world s) \<Longrightarrow> later (world s) (world (ignite c s))"
  by (auto simp: ignite_def Let_def later_overwritten split: prod.split intro: later.now)

lemma later_fold_ignite:
  "wf_world (world s) \<Longrightarrow> later (world s) (world (fold ignite cs s))"
proof (induction cs arbitrary: s)
  case Nil
  then show ?case by (simp add: later.now)
next
  case (Cons c cs)
  have "later (world (ignite c s)) (world (fold ignite cs (ignite c s)))"
    using Cons.prems by (intro Cons.IH wf_ignite)
  then show ?case using later_ignite [OF Cons.prems, of c] by (auto intro: later_trans)
qed

lemma later_request_swap:
  "wf_world (world s) \<Longrightarrow> later (world s) (world (request_swap x y d s))"
  by (auto simp: world_request_swap later_swapped split: option.split intro: later.now)

lemma later_fire_rule:
  assumes "wf_world (world s)"
  shows "later (world s) (world (fire_rule x y s))"
proof -
  obtain v g where vg: "lifetime_before x y s = (v, g)" by (cases "lifetime_before x y s")
  show ?thesis
  proof (cases "v - 1 \<le> 0")
    case True
    then show ?thesis using assms by (simp add: fire_rule_def vg later_overwritten)
  next
    case False
    let ?s0 = "s\<lparr>lifetimes := (lifetimes s)((x, y) \<mapsto> v - 1), rng := g\<rparr>"
    let ?s1 = "fold ignite (neighbours x y) ?s0"
    have l1: "later (world s) (world ?s1)"
      using later_fold_ignite [of ?s0 "neighbours x y"] assms by simp
    have wf1: "wf_world (world ?s1)" using later_frame [OF l1 assms] by simp
    have "later (world ?s1) (world (request_rise x y (fire_target x y ?s1) ?s1))"
      using wf1 by (auto simp: world_request_rise later_swapped split: option.split intro: later.now)
    then have "later (world s) (world (request_rise x y (fire_target x y ?s1) ?s1))"
      using l1 by (rule later_trans)
    then show ?thesis using False by (simp add: fire_rule_def vg Let_def)
  qed
qed

lemma later_rule_of: "wf_world (world s) \<Longrightarrow> later (world s) (world (rule_of t x y s))"
  by (cases t) (simp_all add: later.now later_request_swap later_fire_rule)

lemma later_visited: "wf_world (world s) \<Longrightarrow> later (world s) (world (visited T c s))"
  by (simp add: visited_def later.now later_rule_of)

lemma Material_update_wf:
  "wf_world (world s) \<Longrightarrow> Material_update (material_of t) x y s = Some (rule_of t x y s)"
  by (cases t)
     (simp_all add: SandMaterial_update_wf WaterMaterial_update_wf OilMaterial_update_wf
       FireMaterial_update_wf)

lemma visit_wf:
  "wf_world (world s) \<Longrightarrow> is_valid_position (world s) x y \<Longrightarrow>
   visit T y x s = Some (visited T (x, y) s)"
  by (simp add: visit_def visited_def get_moved get_cur Material_update_wf)

lemma for_each_pure_on:
  assumes "\<And>a s. a \<in> set xs \<Longrightarrow> P s \<Longrightarrow> f a s = Some (g a s) \<and> P (g a s)" "P s"
  shows "for_each f xs s = Some (fold g xs s) \<and> P (fold g xs s)"
  using assms
proof (induction xs arbitrary: s)
  case Nil
  then show ?case by simp
next
  case (Cons a xs)
  have "f a s = Some (g a s)" "P (g a s)" using Cons.prems by simp_all
  moreover have "for_each f xs (g a s) = Some (fold g xs (g a s)) \<and> P (fold g xs (g a s))"
    using Cons.prems \<open>P (g a s)\<close> by (intro Cons.IH) simp_all
  ultimately show ?case by simp
qed

lemma later_valid:
  "later w0 w \<Longrightarrow> wf_world w0 \<Longrightarrow> is_valid_position w = is_valid_position w0"
  using later_frame [of w0 w] by (simp add: is_valid_position_def fun_eq_iff)

lemma row_wf:
  assumes "wf_world w0" "later w0 (world s)" "0 \<le> y" "y < height w0"
    "\<forall>x \<in> set xs. 0 \<le> x \<and> x < width w0"
  shows "for_each (\<lambda>x s. visit T y x s) xs s = Some (fold (\<lambda>x. visited T (x, y)) xs s)
       \<and> later w0 (world (fold (\<lambda>x. visited T (x, y)) xs s))"
proof (rule for_each_pure_on [where P = "\<lambda>s. later w0 (world s)"])
  fix a and s :: sim assume a: "a \<in> set xs" and l: "later w0 (world s)"
  have wf: "wf_world (world s)" using later_frame [OF l assms(1)] by simp
  have "is_valid_position (world s) a y"
    using a assms by (simp add: later_valid [OF l assms(1)] is_valid_position_def)
  then have "visit T y a s = Some (visited T (a, y) s)" using wf by (rule visit_wf [rotated])
  moreover have "later w0 (world (visited T (a, y) s))"
    using later_visited [OF wf] l by (rule later_trans)
  ultimately show "visit T y a s = Some (visited T (a, y) s) \<and> later w0 (world (visited T (a, y) s))"
    by simp
qed (rule assms(2))

lemma x_range_columns: "x_range w = columns w"
  by (simp add: x_range_def columns_def py_range_def py_range_down_def rev_map
      even_iff_mod_2_eq_zero)

lemma columns_later: "later w0 w \<Longrightarrow> wf_world w0 \<Longrightarrow> columns w = columns w0"
  using later_frame [of w0 w] by (simp add: columns_def)

lemma columns_valid: "x \<in> set (columns w) \<Longrightarrow> 0 \<le> x \<and> x < width w"
  by (auto simp: columns_def split: if_splits)

lemma fold_rows:
  "fold (\<lambda>y. fold (\<lambda>x. f (x, y)) xs) ys s = fold f (concat (map (\<lambda>y. map (\<lambda>x. (x, y)) xs) ys)) s"
  by (induction ys arbitrary: s) (simp_all add: fold_map comp_def)

lemma update_pass_wf:
  assumes "wf_world (world s)"
  shows "update_pass T s = Some (pass T s) \<and> later (world s) (world (pass T s))"
proof -
  let ?w0 = "world s"
  let ?ys = "py_range_down (height ?w0)"
  let ?g = "\<lambda>y. fold (\<lambda>x. visited T (x, y)) (columns ?w0)"
  have "for_each (\<lambda>y s. for_each (\<lambda>x s. visit T y x s) (x_range (world s)) s) ?ys s
          = Some (fold ?g ?ys s) \<and> later ?w0 (world (fold ?g ?ys s))"
  proof (rule for_each_pure_on [where P = "\<lambda>s. later ?w0 (world s)"])
    fix y and s' :: sim assume y: "y \<in> set ?ys" and l: "later ?w0 (world s')"
    have yb: "0 \<le> y" "y < height ?w0"
      using y by (auto simp: py_range_down_def py_range_def)
    have "x_range (world s') = columns ?w0"
      using columns_later [OF l assms] by (simp add: x_range_columns)
    then show "for_each (\<lambda>x s. visit T y x s) (x_range (world s')) s' = Some (?g y s')
             \<and> later ?w0 (world (?g y s'))"
      using row_wf [OF assms l yb, of "columns ?w0" T] columns_valid [of _ ?w0] by simp
  qed (rule later.now)
  moreover have "fold ?g ?ys s = pass T s"
    by (simp add: pass_def scan_order_def fold_rows py_range_down_def py_range_def rev_map)
  ultimately show ?thesis by (simp add: update_pass_def)
qed

section \<open>The start of a step\<close>

lemma for_each_append:
  "for_each f (xs @ ys) s = (case for_each f xs s of None \<Rightarrow> None | Some s' \<Rightarrow> for_each f ys s')"
  by (induction xs arbitrary: s) (simp_all split: bind_split)

lemma store_step:
  assumes "length ys = n" "n < length xs"
  shows "(ys @ drop n xs)[n := v] = (ys @ [v]) @ drop (Suc n) xs"
  using assms by (simp add: list_update_append Cons_nth_drop_Suc [symmetric])

lemma py_range_int: "py_range (int n) = map int [0..<n]"
  by (simp add: py_range_def)

lemma copy_rows:
  assumes "n \<le> length (cur w)" "length (nxt w) = length (cur w)"
  shows "for_each copy_row (map int [0..<n]) w = Some (w\<lparr>nxt := take n (cur w) @ drop n (nxt w)\<rparr>)"
  using assms(1)
proof (induction n)
  case 0
  then show ?case by simp
next
  case (Suc n)
  let ?w1 = "w\<lparr>nxt := take n (cur w) @ drop n (nxt w)\<rparr>"
  have len: "length (take n (cur w) @ drop n (nxt w)) = length (cur w)"
    using Suc.prems assms(2) by simp
  have "copy_row (int n) ?w1 = Some (w\<lparr>nxt := (take n (cur w) @ drop n (nxt w))[n := cur w ! n]\<rparr>)"
    using Suc.prems len by (simp add: copy_row_def py_index_nat py_store_nat)
  also have "(take n (cur w) @ drop n (nxt w))[n := cur w ! n]
               = take (Suc n) (cur w) @ drop (Suc n) (nxt w)"
    using Suc.prems assms(2) by (simp add: store_step take_Suc_conv_app_nth)
  finally show ?case using Suc by (simp add: for_each_append)
qed

lemma reset_cells:
  assumes "n \<le> length row"
  shows "for_each (\<lambda>x r. py_store r x False) (map int [0..<n]) row
           = Some (replicate n False @ drop n row)"
  using assms
proof (induction n)
  case 0
  then show ?case by simp
next
  case (Suc n)
  have "py_store (replicate n False @ drop n row) (int n) False
          = Some ((replicate n False @ drop n row)[n := False])"
    using Suc.prems by (simp add: py_store_nat)
  also have "(replicate n False @ drop n row)[n := False]
               = replicate (Suc n) False @ drop (Suc n) row"
    using Suc.prems by (simp add: store_step replicate_append_same)
  finally show ?case using Suc by (simp add: for_each_append)
qed

lemma reset_rows:
  assumes "n \<le> length (moved w)" "\<forall>row \<in> set (moved w). length row = nat (width w)"
  shows "for_each reset_row (map int [0..<n]) w
           = Some (w\<lparr>moved := replicate n (replicate (nat (width w)) False) @ drop n (moved w)\<rparr>)"
  using assms(1)
proof (induction n)
  case 0
  then show ?case by simp
next
  case (Suc n)
  let ?m = "replicate n (replicate (nat (width w)) False) @ drop n (moved w)"
  let ?w1 = "w\<lparr>moved := ?m\<rparr>"
  have nth: "?m ! n = moved w ! n" using Suc.prems by (simp add: nth_append)
  have "moved w ! n \<in> set (moved w)" using Suc.prems by simp
  then have lrow: "length (moved w ! n) = nat (width w)" using assms(2) by simp
  have cells: "for_each (\<lambda>x r. py_store r x False) (py_range (width w)) (moved w ! n)
                 = Some (replicate (nat (width w)) False)"
  proof (cases "0 \<le> width w")
    case True
    then show ?thesis
      using reset_cells [of "nat (width w)" "moved w ! n"] lrow by (simp add: py_range_def)
  next
    case False
    then show ?thesis using lrow by (simp add: py_range_def)
  qed
  have "reset_row (int n) ?w1 = Some (w\<lparr>moved := ?m[n := replicate (nat (width w)) False]\<rparr>)"
    using Suc.prems by (simp add: reset_row_def py_index_nat py_store_nat nth cells)
  also have "?m[n := replicate (nat (width w)) False]
               = replicate (Suc n) (replicate (nat (width w)) False) @ drop (Suc n) (moved w)"
    using Suc.prems by (simp add: store_step replicate_append_same)
  finally show ?case using Suc by (simp add: for_each_append)
qed

lemma begin_frame_wf:
  assumes "wf_world w"
  shows "begin_frame w =
     Some (w\<lparr>nxt := cur w,
             moved := replicate (nat (height w)) (replicate (nat (width w)) False)\<rparr>)"
proof (cases "0 \<le> height w")
  case True
  note wfs = wf_worldD [OF assms]
  have h: "height w = int (nat (height w))" using True by simp
  have c: "for_each copy_row (py_range (height w)) w = Some (w\<lparr>nxt := cur w\<rparr>)"
    using copy_rows [of "nat (height w)" w] wfs True by (simp add: wf_grid_def py_range_def)
  have r: "for_each reset_row (py_range (height (w\<lparr>nxt := cur w\<rparr>))) (w\<lparr>nxt := cur w\<rparr>)
             = Some (w\<lparr>nxt := cur w, moved := replicate (nat (height w)) (replicate (nat (width w)) False)\<rparr>)"
    using reset_rows [of "nat (height w)" "w\<lparr>nxt := cur w\<rparr>"] wfs True
    by (simp add: wf_grid_def py_range_def)
  show ?thesis using c r by (simp add: begin_frame_def reset_moved_flags_def)
next
  case False
  note wfs = wf_worldD [OF assms]
  have e: "nxt w = []" "cur w = []" "moved w = []" using wfs False by (simp_all add: wf_grid_def)
  have "w\<lparr>nxt := [], moved := []\<rparr> = w" using e by simp
  then show ?thesis
    using False e by (simp add: begin_frame_def reset_moved_flags_def py_range_def)
qed

lemma wf_start_of_step: "wf_world (world s) \<Longrightarrow> wf_world (world (start_of_step s))"
  by (simp add: start_of_step_def wf_world_def wf_grid_replicate)

lemma update_wf:
  assumes "wf_world (world s)"
  shows "update s = Some (step s)"
proof -
  let ?s0 = "start_of_step s"
  let ?s1 = "pass {FIRE} ?s0"
  let ?s2 = "pass {SAND} ?s1"
  let ?s3 = "pass {WATER, OIL} ?s2"
  have wf0: "wf_world (world ?s0)" using assms by (rule wf_start_of_step)
  have p1: "update_pass {FIRE} ?s0 = Some ?s1" and l1: "later (world ?s0) (world ?s1)"
    using update_pass_wf [OF wf0] by simp_all
  have wf1: "wf_world (world ?s1)" using later_frame [OF l1 wf0] by simp
  have p2: "update_pass {SAND} ?s1 = Some ?s2" and l2: "later (world ?s1) (world ?s2)"
    using update_pass_wf [OF wf1] by simp_all
  have wf2: "wf_world (world ?s2)" using later_frame [OF l2 wf1] by simp
  have p3: "update_pass {WATER, OIL} ?s2 = Some ?s3"
    using update_pass_wf [OF wf2] by simp
  have b: "begin_frame (world s) = Some (world ?s0)"
    using assms by (simp add: begin_frame_wf start_of_step_def)
  have "s\<lparr>world := world ?s0\<rparr> = ?s0" by (simp add: start_of_step_def)
  then show ?thesis
    by (simp add: update_def b p1 p2 p3 step_def passes_def end_frame_def Let_def)
qed

section \<open>The whole step\<close>

lemma later_passes:
  assumes "wf_world (world s)"
  shows "later (world (start_of_step s)) (world (passes s))"
proof -
  let ?s0 = "start_of_step s"
  let ?s1 = "pass {FIRE} ?s0"
  let ?s2 = "pass {SAND} ?s1"
  have wf0: "wf_world (world ?s0)" using assms by (rule wf_start_of_step)
  have l1: "later (world ?s0) (world ?s1)" using update_pass_wf [OF wf0] by simp
  have wf1: "wf_world (world ?s1)" using later_frame [OF l1 wf0] by simp
  have l2: "later (world ?s1) (world ?s2)" using update_pass_wf [OF wf1] by simp
  have wf2: "wf_world (world ?s2)" using later_frame [OF l2 wf1] by simp
  have l3: "later (world ?s2) (world (pass {WATER, OIL} ?s2))" using update_pass_wf [OF wf2] by simp
  show ?thesis unfolding passes_def using l3 l2 l1 by (blast intro: later_trans)
qed

lemma wf_end_frame: "wf_world w \<Longrightarrow> wf_world (end_frame w)"
  by (simp add: wf_world_def end_frame_def)

text \<open>Well-formedness is established by the constructor and kept by every operation of
  the world.\<close>

lemma set_pixel_keeps_wf:
  "wf_world w \<Longrightarrow> set_pixel x y t w = Some (ok, w') \<Longrightarrow> wf_world w'"
  by (auto simp: set_pixel_wf wf_world_def wf_grid_put split: if_splits)

lemma mark_updated_keeps_wf:
  "wf_world w \<Longrightarrow> mark_updated x y w = Some w' \<Longrightarrow> wf_world w'"
  by (auto simp: mark_updated_wf wf_world_def wf_grid_put split: if_splits)

lemma update_keeps_wf:
  assumes "wf_world (world s)" "update s = Some s'"
  shows "wf_world (world s')"
proof -
  have wf0: "wf_world (world (start_of_step s))" using assms(1) by (rule wf_start_of_step)
  have "wf_world (world (passes s))"
    using later_frame [OF later_passes [OF assms(1)] wf0] by simp
  then have "wf_world (end_frame (world (passes s)))" by (rule wf_end_frame)
  moreover have "world (step s) = end_frame (world (passes s))"
    by (simp add: step_def end_frame_def Let_def)
  ultimately show ?thesis using update_wf [OF assms(1)] assms(2) by simp
qed

lemma scan_order_even_example:
  "scan_order \<lparr>width = 2, height = 2, cur = c, nxt = n, moved = m, frame_count = 0\<rparr>
     = [(0, 1), (1, 1), (0, 0), (1, 0)]"
  by code_simp

lemma scan_order_odd_example:
  "scan_order \<lparr>width = 2, height = 2, cur = c, nxt = n, moved = m, frame_count = 1\<rparr>
     = [(1, 1), (0, 1), (1, 0), (0, 0)]"
  by code_simp

text \<open>
  Claim C2. On a well-formed world \<open>update\<close> is the step of the specification: after the
  next buffer has been made a copy of the current one and the mask reset, exactly three
  passes run, for Fire, then for Sand, then for Water and Oil; every pass (whatever its
  target set) visits the cells in \<open>scan_order\<close>, rows from the bottom one up to the top
  one and columns from left to right on an even frame counter and from right to left on
  an odd one, and invokes the rule of a cell only if the cell is not yet resolved and
  its identifier is in the target set; at the end the buffers have changed places (the
  former current buffer is the next one) and the frame counter has grown by exactly one.
\<close>

theorem step_refined:
  assumes "wf_world (world s)"
  shows "update s = Some (step s)
       \<and> update_pass T s = Some (pass T s)
       \<and> frame_count (world (step s)) = frame_count (world s) + 1
       \<and> cur (world (step s)) = nxt (world (passes s))
       \<and> nxt (world (step s)) = cur (world s)
       \<and> wf_world (world (step s))"
proof -
  have wf0: "wf_world (world (start_of_step s))" using assms by (rule wf_start_of_step)
  note f = later_frame [OF later_passes [OF assms] wf0]
  have e: "world (step s) = end_frame (world (passes s))"
    by (simp add: step_def end_frame_def Let_def)
  have "wf_world (end_frame (world (passes s)))"
    using f by (intro wf_end_frame) simp
  moreover have "frame_count (world (passes s)) = frame_count (world s)"
    "cur (world (passes s)) = cur (world s)"
    using f by (simp_all add: start_of_step_def)
  ultimately show ?thesis
    using update_wf [OF assms] update_pass_wf [OF assms, of T] by (simp add: e end_frame_def)
qed

theorem step_refined_witness:
  "wf_world (world (fresh_state fire_column 3))
   \<and> map_option world (update (fresh_state fire_column 3)) =
       Some \<lparr>width = 1, height = 2, cur = [[FIRE], [EMPTY]], nxt = [[EMPTY], [FIRE]],
              moved = [[True], [True]], frame_count = 1\<rparr>
   \<and> frame_count (world (step (fresh_state fire_column 3))) = 1"
proof -
  have wf: "wf_world (world (fresh_state fire_column 3))"
    by (simp add: fresh_state_def wf_fire_column)
  have e: "world (step (fresh_state fire_column 3)) =
       \<lparr>width = 1, height = 2, cur = [[FIRE], [EMPTY]], nxt = [[EMPTY], [FIRE]],
         moved = [[True], [True]], frame_count = 1\<rparr>"
    by code_simp
  show ?thesis using step_refined [OF wf] wf e by simp
qed

text \<open>
  Claim C1. Take a call of \<open>update\<close> on a well-formed world, the world \<open>w0\<close> that it has
  after the reset of the mask, a world \<open>w\<close> reached from \<open>w0\<close> by primitive calls and a
  world \<open>w'\<close> reached from \<open>w\<close> by further primitive calls. From the reset to the exchange
  of the buffers the step itself changes the world by primitive calls only. For a cell
  inside the grid and a primitive call that involves it: if the call succeeds at \<open>w\<close>
  the cell is resolved afterwards; and if the cell is resolved at \<open>w\<close>, then at \<open>w'\<close> the
  call returns false and changes nothing, and the next slot of the cell still holds what
  it held at \<open>w\<close>.
\<close>

theorem no_double_write:
  assumes "wf_world (world s)" "begin_frame (world s) = Some w0"
    "run_calls ps w0 = Some w" "run_calls qs w = Some w'"
    "is_valid_position w x y" "involves p x y"
  shows "(\<exists>cs w3 s3. run_calls cs w0 = Some w3 \<and> update s = Some s3 \<and> world s3 = end_frame w3)
       \<and> (run_primitive p w = Some (True, w1) \<longrightarrow> cell (moved w1) x y)
       \<and> (cell (moved w) x y \<longrightarrow>
            run_primitive p w' = Some (False, w') \<and> cell (nxt w') x y = cell (nxt w) x y
            \<and> cell (moved w') x y)"
proof (intro conjI impI)
  have w0: "w0 = world (start_of_step s)"
    using assms(1,2) by (simp add: begin_frame_wf start_of_step_def)
  have wf0: "wf_world w0" unfolding w0 using assms(1) by (rule wf_start_of_step)
  have l: "later w0 w" "later w w'"
    using assms(3,4) by (simp_all add: run_calls_later)
  have wfw: "wf_world w" using later_frame [OF l(1) wf0] by simp
  have wfw': "wf_world w'" using later_frame [OF l(2) wfw] by simp
  have "world (step s) = end_frame (world (passes s))"
    by (simp add: step_def end_frame_def Let_def)
  moreover obtain cs where "run_calls cs w0 = Some (world (passes s))"
    using later_run_calls [OF later_passes [OF assms(1)]] w0 by auto
  ultimately show "\<exists>cs w3 s3. run_calls cs w0 = Some w3 \<and> update s = Some s3 \<and> world s3 = end_frame w3"
    using update_wf [OF assms(1)] by blast
  show "cell (moved w1) x y" if "run_primitive p w = Some (True, w1)"
    using run_primitive_marks [OF wfw assms(5,6) that] .
  assume m: "cell (moved w) x y"
  note k = later_keeps [OF l(2) wfw assms(5) m]
  show "cell (nxt w') x y = cell (nxt w) x y" "cell (moved w') x y" using k by simp_all
  show "run_primitive p w' = Some (False, w')"
    using run_primitive_blocked [OF wfw' _ assms(6)] k by simp
qed

theorem no_double_write_witness:
  "wf_world (world (fresh_state fire_column 3))
   \<and> begin_frame (world (fresh_state fire_column 3)) = Some fire_column
   \<and> run_calls [Swap 0 1 0 0] fire_column
       = Some (fire_column\<lparr>nxt := [[FIRE], [EMPTY]], moved := [[True], [True]]\<rparr>)
   \<and> run_calls [Overwrite 0 1 WALL] (fire_column\<lparr>nxt := [[FIRE], [EMPTY]], moved := [[True], [True]]\<rparr>)
       = Some (fire_column\<lparr>nxt := [[FIRE], [EMPTY]], moved := [[True], [True]]\<rparr>)
   \<and> is_valid_position (fire_column\<lparr>nxt := [[FIRE], [EMPTY]], moved := [[True], [True]]\<rparr>) 0 0
   \<and> involves (Overwrite 0 0 SAND) 0 0
   \<and> cell (moved (fire_column\<lparr>nxt := [[FIRE], [EMPTY]], moved := [[True], [True]]\<rparr>)) 0 0
   \<and> run_primitive (Overwrite 0 0 SAND)
        (fire_column\<lparr>nxt := [[FIRE], [EMPTY]], moved := [[True], [True]]\<rparr>)
       = Some (False, fire_column\<lparr>nxt := [[FIRE], [EMPTY]], moved := [[True], [True]]\<rparr>)"
proof -
  let ?w = "fire_column\<lparr>nxt := [[FIRE], [EMPTY]], moved := [[True], [True]]\<rparr>"
  have wf: "wf_world (world (fresh_state fire_column 3))"
    by (simp add: fresh_state_def wf_fire_column)
  have b: "begin_frame (world (fresh_state fire_column 3)) = Some fire_column"
    by code_simp
  have r1: "run_calls [Swap 0 1 0 0] fire_column = Some ?w"
    by code_simp
  have r2: "run_calls [Overwrite 0 1 WALL] ?w = Some ?w"
    by code_simp
  have v: "is_valid_position ?w 0 0" by (simp add: is_valid_position_def fire_column_def)
  have i: "involves (Overwrite 0 0 SAND) 0 0" by simp
  have m: "cell (moved ?w) 0 0" by (simp add: cell_def)
  show ?thesis
    using no_double_write [OF wf b r1 r2 v i] wf b r1 r2 v i m by simp
qed

section \<open>Sand falling in a column\<close>

lemma fold_visited_other:
  "\<forall>c \<in> set cs. cell (cur (world s)) (fst c) (snd c) \<notin> T \<Longrightarrow> fold (visited T) cs s = s"
  by (induction cs) (simp_all add: visited_def)

lemma fold_visited_single:
  assumes "distinct cs" "c \<in> set cs"
    "\<forall>c' \<in> set cs. c' \<noteq> c \<longrightarrow> cell (cur (world s)) (fst c') (snd c') \<notin> T"
    "cur (world (visited T c s)) = cur (world s)"
  shows "fold (visited T) cs s = visited T c s"
  using assms(1,2,3)
proof (induction cs)
  case Nil
  then show ?case by simp
next
  case (Cons a cs)
  show ?case
  proof (cases "a = c")
    case True
    have "\<forall>c' \<in> set cs. cell (cur (world (visited T c s))) (fst c') (snd c') \<notin> T"
      using Cons.prems True assms(4) by auto
    then show ?thesis using True by (simp add: fold_visited_other)
  next
    case False
    then have "visited T a s = s" using Cons.prems by (simp add: visited_def)
    then show ?thesis using Cons False by simp
  qed
qed

lemma scan_order_column:
  "width w = 1 \<Longrightarrow> scan_order w = map (\<lambda>y. (0, int y)) (rev [0..<nat (height w)])"
  by (simp add: scan_order_def columns_def comp_def)

lemma cell_sand_at:
  "y < H \<Longrightarrow> cell (sand_at H j) 0 (int y) = (if y = j then SAND else EMPTY)"
  by (simp add: cell_def sand_at_def nth_list_update)

lemma sand_at_inject: "j < H \<Longrightarrow> j' < H \<Longrightarrow> sand_at H j = sand_at H j' \<longleftrightarrow> j = j'"
proof
  assume a: "j < H" "j' < H" "sand_at H j = sand_at H j'"
  then have "cell (sand_at H j) 0 (int j) = cell (sand_at H j') 0 (int j)" by simp
  then show "j = j'" using a(1,2) by (simp add: cell_sand_at split: if_splits)
qed simp

lemma sand_at_moves:
  assumes "Suc j < H"
  shows "put (put (sand_at H j) 0 (int j) EMPTY) 0 (int j + 1) SAND = sand_at H (Suc j)"
proof -
  have "put (sand_at H j) 0 (int j) EMPTY = replicate H [EMPTY]"
    using assms by (simp add: put_def sand_at_def list_update_same_conv)
  moreover have "nat (int j + 1) = Suc j" by simp
  ultimately show ?thesis using assms by (simp add: put_def sand_at_def)
qed

lemma step_frame:
  assumes "wf_world (world s)"
  shows "wf_world (world (step s)) \<and> width (world (step s)) = width (world s)
       \<and> height (world (step s)) = height (world s)"
proof -
  have wf0: "wf_world (world (start_of_step s))" using assms by (rule wf_start_of_step)
  note f = later_frame [OF later_passes [OF assms] wf0]
  have e: "world (step s) = end_frame (world (passes s))"
    by (simp add: step_def end_frame_def Let_def)
  have "wf_world (end_frame (world (passes s)))"
    using f by (intro wf_end_frame) simp
  then show ?thesis using f by (simp add: e end_frame_def start_of_step_def)
qed

lemma column_cells:
  assumes "width w = 1" "height w = int H" "cur w = sand_at H j"
  shows "\<forall>c \<in> set (scan_order w). c \<noteq> (0, int j) \<longrightarrow> cell (cur w) (fst c) (snd c) = EMPTY"
    and "\<forall>c \<in> set (scan_order w). cell (cur w) (fst c) (snd c) \<in> {EMPTY, SAND}"
    and "distinct (scan_order w)"
    and "j < H \<Longrightarrow> (0, int j) \<in> set (scan_order w)"
  using assms
  by (auto simp: scan_order_column cell_sand_at distinct_map inj_on_def)

lemma sand_rule_column:
  assumes "width (world s) = 1" "height (world s) = int H" "cur (world s) = sand_at H j" "j < H"
  shows "sand_rule 0 (int j) s
           = (if Suc j < H then (Some (0, int j + 1), rng s) else (None, rng s))"
proof -
  have below: "passable (world s) SandMaterial (0, int j + 1) \<longleftrightarrow> Suc j < H"
  proof (cases "Suc j < H")
    case True
    then have "cell (sand_at H j) 0 (int (Suc j)) = EMPTY" by (simp only: cell_sand_at) simp
    then show ?thesis
      using True assms by (simp add: passable_def is_valid_position_def add.commute)
  next
    case False
    then show ?thesis using assms by (auto simp: passable_def is_valid_position_def)
  qed
  have side: "\<not> passable (world s) SandMaterial (0 - 1, int j + 1)"
    "\<not> passable (world s) SandMaterial (0 + 1, int j + 1)"
    using assms by (simp_all add: passable_def is_valid_position_def)
  show ?thesis using below side by (simp add: sand_rule_def pick_target_def)
qed


lemma pass_no_target:
  "\<forall>c \<in> set (scan_order (world s)). cell (cur (world s)) (fst c) (snd c) \<notin> T \<Longrightarrow> pass T s = s"
  by (simp add: pass_def fold_visited_other)

lemma step_column:
  assumes "wf_world (world s)" "width (world s) = 1" "height (world s) = int H" "j < H"
    "cur (world s) = sand_at H j"
  shows "cur (world (step s)) = sand_at H (min (Suc j) (H - 1))"
proof -
  let ?s0 = "start_of_step s"
  let ?w0 = "world ?s0"
  have w0: "width ?w0 = 1" "height ?w0 = int H" "cur ?w0 = sand_at H j" "nxt ?w0 = sand_at H j"
    "moved ?w0 = replicate H [False]"
    using assms by (simp_all add: start_of_step_def)
  have wf0: "wf_world ?w0" using assms(1) by (rule wf_start_of_step)
  note cells = column_cells [OF w0(1,2,3)]
  have p1: "pass {FIRE} ?s0 = ?s0"
    using cells(2) by (intro pass_no_target) auto
  have keep: "cur (world (visited {SAND} (0, int j) ?s0)) = cur ?w0"
    using later_frame [OF later_visited [OF wf0] wf0] by simp
  have p2: "pass {SAND} ?s0 = visited {SAND} (0, int j) ?s0"
    unfolding pass_def
    using cells(1) by (intro fold_visited_single cells(3) cells(4) assms(4) keep) auto
  have free: "\<not> cell (moved ?w0) 0 (int y)" if "y < H" for y
    using that by (simp add: w0 cell_def)
  have here: "cell (cur ?w0) 0 (int j) = SAND"
    using assms(4) by (simp add: w0 cell_sand_at)
  have v: "visited {SAND} (0, int j) ?s0 = request_swap 0 (int j) (sand_rule 0 (int j) ?s0) ?s0"
    using free [OF assms(4)] here by (simp add: visited_def)
  let ?s2 = "pass {SAND} ?s0"
  have nxt2: "nxt (world ?s2) = sand_at H (min (Suc j) (H - 1))"
    and w2: "width (world ?s2) = 1" "height (world ?s2) = int H" "cur (world ?s2) = sand_at H j"
  proof -
    show "width (world ?s2) = 1" "height (world ?s2) = int H" "cur (world ?s2) = sand_at H j"
      using later_frame [OF later_visited [OF wf0, of "{SAND}" "(0, int j)"] wf0] w0
      by (simp_all add: p2)
    show "nxt (world ?s2) = sand_at H (min (Suc j) (H - 1))"
    proof (cases "Suc j < H")
      case True
      have wr: "writable ?w0 0 (int j)" "writable ?w0 0 (int j + 1)"
        using True free [of j] free [of "Suc j"] w0(1,2)
        by (simp_all add: writable_def is_valid_position_def add.commute)
      have below: "cell (cur ?w0) 0 (int j + 1) = EMPTY"
        using True cell_sand_at [of "Suc j" H j] by (simp add: w0 add.commute)
      have "nxt (world ?s2) = put (put (sand_at H j) 0 (int j) EMPTY) 0 (int j + 1) SAND"
        using True wr below here
        by (simp add: p2 v sand_rule_column [OF w0(1,2,3) assms(4)] request_swap_def swapped_def w0(4))
      moreover have "min (Suc j) (H - 1) = Suc j" using True by simp
      ultimately show ?thesis using True by (simp add: sand_at_moves)
    next
      case False
      then have "min (Suc j) (H - 1) = j" using assms(4) by simp
      then show ?thesis
        using False by (simp add: p2 v sand_rule_column [OF w0(1,2,3) assms(4)] request_swap_def w0(4))
    qed
  qed
  have p3: "pass {WATER, OIL} ?s2 = ?s2"
    using column_cells(2) [OF w2] by (intro pass_no_target) auto
  have "passes s = ?s2" by (simp add: passes_def p1 p3)
  then show ?thesis using nxt2 by (simp add: step_def Let_def)
qed

lemma updates_column:
  assumes "wf_world (world s)" "width (world s) = 1" "height (world s) = int H" "j < H"
    "cur (world s) = sand_at H j"
  shows "\<exists>s'. updates k s = Some s' \<and> cur (world s') = sand_at H (min (j + k) (H - 1))"
  using assms
proof (induction k arbitrary: s j)
  case 0
  then show ?case by simp
next
  case (Suc k)
  note f = step_frame [OF Suc.prems(1)]
  have c: "cur (world (step s)) = sand_at H (min (Suc j) (H - 1))"
    using step_column [OF Suc.prems] .
  have "min (Suc j) (H - 1) < H" using Suc.prems(4) by simp
  then obtain s' where s': "updates k (step s) = Some s'"
    "cur (world s') = sand_at H (min (min (Suc j) (H - 1) + k) (H - 1))"
    using Suc.IH [of "step s" "min (Suc j) (H - 1)"] f c Suc.prems(2,3) by auto
  have "min (min (Suc j) (H - 1) + k) (H - 1) = min (j + Suc k) (H - 1)" by simp
  then show ?case using s' update_wf [OF Suc.prems(1)] by simp
qed

text \<open>
  Claim C9, amended. In a well-formed column one cell wide and \<open>H \<ge> 1\<close> cells high that
  is Empty except for one Sand cell in row 0, any number \<open>k\<close> of calls of \<open>update\<close>
  succeeds and leaves the column Empty except for one Sand cell in row \<open>min k (H - 1)\<close>:
  the Sand falls one row per call. So it is in row \<open>H - 1\<close> exactly from the call number
  \<open>H - 1\<close> on: it reaches the bottom row after exactly \<open>H - 1\<close> calls, and is still there
  after \<open>H\<close> calls.
\<close>

theorem sand_reaches_bottom:
  assumes "wf_world (world s)" "width (world s) = 1" "height (world s) = int H" "1 \<le> H"
    "cur (world s) = sand_at H 0"
  shows "\<exists>s'. updates k s = Some s' \<and> cur (world s') = sand_at H (min k (H - 1))
            \<and> (cur (world s') = sand_at H (H - 1) \<longleftrightarrow> H - 1 \<le> k)"
proof -
  have "0 < H" using assms(4) by simp
  then obtain s' where s': "updates k s = Some s'" "cur (world s') = sand_at H (min k (H - 1))"
    using updates_column [OF assms(1,2,3) _ assms(5), of k] by auto
  have "sand_at H (min k (H - 1)) = sand_at H (H - 1) \<longleftrightarrow> min k (H - 1) = H - 1"
    using \<open>0 < H\<close> by (intro sand_at_inject) simp_all
  then show ?thesis using s' by auto
qed

text \<open>
  Claim C9 says that the Sand reaches row \<open>H - 1\<close> after exactly \<open>H\<close> calls. In a column
  of height 2 it is in row 1 after one call already.
\<close>

theorem sand_reaches_bottom_counterexample:
  "height sand_column = 2 \<and> cur sand_column = sand_at 2 0
   \<and> map_option (\<lambda>s. cur (world s)) (updates 1 (fresh_state sand_column 0)) = Some (sand_at 2 (2 - 1))"
  by code_simp

theorem sand_reaches_bottom_witness:
  "wf_world (world (fresh_state sand_column 0)) \<and> width (world (fresh_state sand_column 0)) = 1
   \<and> height (world (fresh_state sand_column 0)) = int 2 \<and> (1 :: nat) \<le> 2
   \<and> cur (world (fresh_state sand_column 0)) = sand_at 2 0
   \<and> (\<exists>s'. updates 1 (fresh_state sand_column 0) = Some s' \<and> cur (world s') = [[EMPTY], [SAND]])
   \<and> (\<exists>s'. updates 2 (fresh_state sand_column 0) = Some s' \<and> cur (world s') = [[EMPTY], [SAND]])"
proof -
  have wf: "wf_world (world (fresh_state sand_column 0))"
    by (simp add: fresh_state_def sand_column_def wf_world_def wf_grid_def)
  have w: "width (world (fresh_state sand_column 0)) = 1"
    and h: "height (world (fresh_state sand_column 0)) = int 2"
    by (simp_all add: fresh_state_def sand_column_def)
  have c: "cur (world (fresh_state sand_column 0)) = sand_at 2 0"
    by code_simp
  have one: "(1 :: nat) \<le> 2" by simp
  have e: "sand_at 2 (min 1 (2 - 1)) = [[EMPTY], [SAND]]" "sand_at 2 (min 2 (2 - 1)) = [[EMPTY], [SAND]]"
    by code_simp+
  show ?thesis
    using sand_reaches_bottom [OF wf w h one c, of 1] sand_reaches_bottom [OF wf w h one c, of 2]
      wf w h c e
    by auto
qed

end
